theory Spec2Isabelle
  imports Complex_Main "HOL-Library.Multiset" "HOL-Library.Char_ord" "HOL-Library.List_Lexorder"
    "HOL-Library.Option_ord"
begin

section \<open>Values, responses and the world the lookup client runs in\<close>

text \<open>
  JSON-shaped Python values as they sit in the module-level \<open>cache\<close> dict of
  \<open>ss_utils.py\<close> and as \<open>r.json()\<close> returns them. \<open>JNull\<close> is Python's \<open>None\<close>;
  a dict is a key/value list in insertion order, read with \<open>map_of\<close>; its keys are
  values too (the keys of parsed JSON are all \<open>JStr\<close>, the keys of a dict the program
  builds are whatever it stores under). Numbers are integers here (the fields the program
  reads, \<open>hIndex\<close>, \<open>paperCount\<close> and the co-occurrence counts, are integers).
\<close>

datatype json = JNull | JBool bool | JInt int | JStr string | JArr "json list"
  | JObj "(json \<times> json) list"

text \<open>The uncaught Python exceptions the modelled functions can let through.\<close>

datatype exn = ValueError | AttributeError | TypeError | KeyError | IndexError

text \<open>
  What the program reads of a \<open>requests.Response\<close>: \<open>status_code\<close>, \<open>text\<close> and
  \<open>json()\<close> (\<open>None\<close> when \<open>json()\<close> raises).
\<close>

record response =
  status_code :: int
  resp_text :: string
  resp_json :: "json option"

text \<open>\<open>requests.get\<close> either raises or answers.\<close>

datatype outcome = Raises | Responds response

type_synonym headers = "(string \<times> string) list"

text \<open>
  The transport is the network seen from the program: the outcome of the \<open>n\<close>-th physical
  request (counted from 0 over the whole run) for a URL and its headers.
\<close>

type_synonym transport = "nat \<Rightarrow> string \<Rightarrow> headers \<Rightarrow> outcome"

text \<open>
  The state the functions of \<open>ss_utils.py\<close> read and write: the \<open>cache\<close> dict, the log of
  physical requests sent, the log of \<open>time.sleep\<close> durations, and the number of
  \<open>save_cache()\<close> calls (each rewrites the whole cache file).
\<close>

record world =
  cache :: "string \<rightharpoonup> json"
  sent :: "(string \<times> headers) list"
  slept :: "real list"
  saves :: nat

definition SS_BASE :: string where
  "SS_BASE = ''https://api.semanticscholar.org/graph/v1''"

definition SS_AUTHOR_FIELDS :: string where
  "SS_AUTHOR_FIELDS = ''name,affiliations,hIndex,paperCount''"

definition DEFAULT_DELAY :: real where
  "DEFAULT_DELAY = 3"

definition save_cache :: "world \<Rightarrow> world" where
  "save_cache w = w\<lparr>saves := Suc (saves w)\<rparr>"

section \<open>\<open>safe_get\<close>: GET with retries and backoff\<close>

text \<open>\<open>time.sleep(t)\<close> raises \<open>ValueError\<close> for a negative \<open>t\<close>, else the time passes.\<close>

definition sleep :: "real \<Rightarrow> world \<Rightarrow> exn + world" where
  "sleep t w = (if t < 0 then Inl ValueError else Inr (w\<lparr>slept := slept w @ [t]\<rparr>))"

text \<open>
  The body of \<open>for attempt in range(max_retries)\<close>: \<open>a\<close> is the attempt index, the
  \<open>nat\<close> argument the number of iterations left, \<open>last_resp\<close> as in the source.
  The result is \<open>Inr None\<close> for Python's \<open>None\<close>.
\<close>

fun safe_get_from ::
  "transport \<Rightarrow> string \<Rightarrow> headers \<Rightarrow> real \<Rightarrow> nat \<Rightarrow> nat \<Rightarrow> response option \<Rightarrow> world
     \<Rightarrow> world \<times> (exn + response option)" where
  "safe_get_from tr u h bd a 0 last_resp w = (w, Inr last_resp)"
| "safe_get_from tr u h bd a (Suc n) last_resp w =
     (let w1 = w\<lparr>sent := sent w @ [(u, h)]\<rparr> in
      case tr (length (sent w)) u h of
        Raises \<Rightarrow> (w1, Inr None)
      | Responds resp \<Rightarrow>
          if status_code resp = 200 then (w1, Inr (Some resp))
          else if status_code resp = 429 then
            (case sleep (bd * 2 ^ a + 1) w1 of
               Inl e \<Rightarrow> (w1, Inl e)
             | Inr w2 \<Rightarrow> safe_get_from tr u h bd (Suc a) n (Some resp) w2)
          else if status_code resp \<in> {500, 502, 503, 504} then
            (case sleep (bd * 2 ^ a) w1 of
               Inl e \<Rightarrow> (w1, Inl e)
             | Inr w2 \<Rightarrow> safe_get_from tr u h bd (Suc a) n (Some resp) w2)
          else (w1, Inr (Some resp)))"

definition safe_get ::
  "transport \<Rightarrow> string \<Rightarrow> headers \<Rightarrow> real \<Rightarrow> int \<Rightarrow> world \<Rightarrow> world \<times> (exn + response option)" where
  "safe_get tr u h bd max_retries w = safe_get_from tr u h bd 0 (nat max_retries) None w"

text \<open>The statuses \<open>safe_get\<close> sleeps on and retries.\<close>

definition retry_status :: "int \<Rightarrow> bool" where
  "retry_status s \<longleftrightarrow> s = 429 \<or> s \<in> {500, 502, 503, 504}"

text \<open>
  The wait \<open>safe_get\<close> computes at attempt \<open>a\<close> for a retried status (lines 62 and 67).
\<close>

definition backoff :: "real \<Rightarrow> nat \<Rightarrow> int \<Rightarrow> real" where
  "backoff bd a s = (if s = 429 then bd * 2 ^ a + 1 else bd * 2 ^ a)"

section \<open>Python's strings and values, as far as the lookups use them\<close>

text \<open>The truth value of a value in \<open>if x\<close>, \<open>x or y\<close>, \<open>not x\<close>.\<close>

fun truthy :: "json \<Rightarrow> bool" where
  "truthy JNull = False"
| "truthy (JBool b) = b"
| "truthy (JInt n) = (n \<noteq> 0)"
| "truthy (JStr s) = (s \<noteq> [])"
| "truthy (JArr xs) = (xs \<noteq> [])"
| "truthy (JObj kvs) = (kvs \<noteq> [])"

text \<open>\<open>j.get(k, d)\<close>: only a dict has \<open>get\<close>.\<close>

fun dict_get :: "json \<Rightarrow> string \<Rightarrow> json \<Rightarrow> exn + json" where
  "dict_get (JObj kvs) k d = Inr (case map_of kvs (JStr k) of Some v \<Rightarrow> v | None \<Rightarrow> d)"
| "dict_get _ k d = Inl AttributeError"

text \<open>\<open>data[0]\<close>. A string is indexed by character (bytes here, code points in Python).\<close>

fun index0 :: "json \<Rightarrow> exn + json" where
  "index0 (JArr (x # xs)) = Inr x"
| "index0 (JArr []) = Inl IndexError"
| "index0 (JStr (c # s)) = Inr (JStr [c])"
| "index0 (JStr []) = Inl IndexError"
| "index0 (JObj kvs) = (case map_of kvs (JInt 0) of Some v \<Rightarrow> Inr v | None \<Rightarrow> Inl KeyError)"
| "index0 _ = Inl TypeError"

text \<open>The elements \<open>for x in v\<close> runs over.\<close>

fun py_iter :: "json \<Rightarrow> exn + json list" where
  "py_iter (JArr xs) = Inr xs"
| "py_iter (JObj kvs) = Inr (map fst kvs)"
| "py_iter (JStr s) = Inr (map (\<lambda>c. JStr [c]) s)"
| "py_iter _ = Inl TypeError"

text \<open>\<open>s.startswith(p)\<close> and \<open>p in s\<close> on strings.\<close>

fun starts_with :: "string \<Rightarrow> string \<Rightarrow> bool" where
  "starts_with s [] = True"
| "starts_with [] (p # ps) = False"
| "starts_with (c # s) (p # ps) = (c = p \<and> starts_with s ps)"

fun contains :: "string \<Rightarrow> string \<Rightarrow> bool" where
  "contains [] p = (p = [])"
| "contains (c # s) p = (starts_with (c # s) p \<or> contains s p)"

text \<open>\<open>s.split(d)\<close> for a one-character separator: never empty, \<open>\<close> gives \<open>[] \<close>.\<close>

fun split_on :: "char \<Rightarrow> string \<Rightarrow> string list" where
  "split_on d [] = [[]]"
| "split_on d (c # s) =
     (if c = d then [] # split_on d s
      else (case split_on d s of x # xs \<Rightarrow> (c # x) # xs | [] \<Rightarrow> [[c]]))"

text \<open>\<open>sep.join(xs)\<close>.\<close>

fun join :: "string \<Rightarrow> string list \<Rightarrow> string" where
  "join sep [] = []"
| "join sep [x] = x"
| "join sep (x # y # ys) = x @ sep @ join sep (y # ys)"

text \<open>
  \<open>s.strip()\<close> and \<open>s.lower()\<close> on ASCII, as applied to the comma-separated field
  lists of the details lookup: the whitespace characters are tab, line feed,
  vertical tab, form feed, carriage return, the four separators \<open>0x1C\<close> to \<open>0x1F\<close> and
  the space; only \<open>A\<close> to \<open>Z\<close> change under \<open>lower\<close>.
\<close>

definition is_space :: "char \<Rightarrow> bool" where
  "is_space c \<longleftrightarrow>
     c \<in> {CHR 0x09, CHR 0x0A, CHR 0x0B, CHR 0x0C, CHR 0x0D, CHR 0x1C, CHR 0x1D, CHR 0x1E, CHR 0x1F, CHR '' ''}"

definition strip :: "string \<Rightarrow> string" where
  "strip s = rev (dropWhile is_space (rev (dropWhile is_space s)))"

definition lower_char :: "char \<Rightarrow> char" where
  "lower_char c =
     (case map_of (zip ''ABCDEFGHIJKLMNOPQRSTUVWXYZ'' ''abcdefghijklmnopqrstuvwxyz'') c of
        Some d \<Rightarrow> d | None \<Rightarrow> c)"

definition lower :: "string \<Rightarrow> string" where
  "lower s = map lower_char s"

text \<open>An integer in an f-string: its decimal digits.\<close>

definition digit :: "nat \<Rightarrow> char" where
  "digit n = ''0123456789'' ! (n mod 10)"

function show_nat :: "nat \<Rightarrow> string" where
  "show_nat n = (if n < 10 then [digit n] else show_nat (n div 10) @ [digit n])"
  by pat_completeness auto
termination
  by (relation "measure id") auto

definition show_int :: "int \<Rightarrow> string" where
  "show_int i = (if i < 0 then CHR ''-'' # show_nat (nat (- i)) else show_nat (nat i))"

section \<open>The three memoized lookups\<close>

text \<open>
  \<open>headers = {}\<close>, then \<open>if api_key: headers['x-api-key'] = api_key\<close>. The key is
  \<open>None\<close> or a string.
\<close>

definition api_headers :: "string option \<Rightarrow> headers" where
  "api_headers api_key =
     (case api_key of None \<Rightarrow> [] | Some k \<Rightarrow> if k = [] then [] else [(''x-api-key'', k)])"

text \<open>
  \<open>ss_search_author(name, api_key, base_delay)\<close>. \<open>qp\<close> is \<open>urllib.parse.quote_plus\<close>,
  a library function taken as a parameter. The result is paired with the world after
  the call; \<open>Inr JNull\<close> is the return value \<open>None\<close>, \<open>Inl\<close> an exception that escapes.
  \<open>safe_get\<close> is called with its default \<open>max_retries=6\<close>.
\<close>

definition search_url :: "(string \<Rightarrow> string) \<Rightarrow> string \<Rightarrow> string" where
  "search_url qp name =
     SS_BASE @ ''/author/search?query='' @ qp name @ ''&fields='' @ qp SS_AUTHOR_FIELDS @ ''&limit=5''"

text \<open>\<open>data = j.get('data', [])\<close>, then \<open>top = data[0] if data else None\<close>.\<close>

definition top_of :: "json \<Rightarrow> exn + json" where
  "top_of j =
     (case dict_get j ''data'' (JArr []) of
        Inl e \<Rightarrow> Inl e
      | Inr data \<Rightarrow> if truthy data then index0 data else Inr JNull)"

definition ss_search_author ::
  "transport \<Rightarrow> (string \<Rightarrow> string) \<Rightarrow> string \<Rightarrow> string option \<Rightarrow> real \<Rightarrow> world
     \<Rightarrow> world \<times> (exn + json)" where
  "ss_search_author tr qp name api_key bd w =
     (let cache_key = ''search::'' @ name in
      case cache w cache_key of
        Some v \<Rightarrow> (w, Inr v)
      | None \<Rightarrow>
          (case safe_get tr (search_url qp name) (api_headers api_key) bd 6 w of
             (w1, Inl e) \<Rightarrow> (w1, Inl e)
           | (w1, Inr None) \<Rightarrow> (w1, Inr JNull)
           | (w1, Inr (Some r)) \<Rightarrow>
               if status_code r \<noteq> 200 then (w1, Inr JNull)
               else (case resp_json r of
                       None \<Rightarrow> (w1, Inr JNull)
                     | Some j \<Rightarrow>
                         (case top_of j of
                            Inl e \<Rightarrow> (w1, Inl e)
                          | Inr top' \<Rightarrow>
                              (save_cache (w1\<lparr>cache := (cache w1)(cache_key \<mapsto> top')\<rparr>),
                               Inr top')))))"

text \<open>
  \<open>ss_get_author_details\<close>: the \<open>for _ in range(2)\<close> loop, with the number of
  iterations left and the current \<open>tried_fields\<close>.
\<close>

definition details_url :: "(string \<Rightarrow> string) \<Rightarrow> string \<Rightarrow> string \<Rightarrow> string" where
  "details_url qp author_id tried_fields =
     SS_BASE @ ''/author/'' @ author_id @ ''?fields='' @ qp tried_fields"

text \<open>
  \<open>",".join([f for f in tried_fields.split(",") if f.strip().lower() != 'aliases'])\<close>.
\<close>

definition drop_aliases :: "string \<Rightarrow> string" where
  "drop_aliases tried_fields =
     join '','' (filter (\<lambda>f. lower (strip f) \<noteq> ''aliases'') (split_on CHR '','' tried_fields))"

fun details_loop ::
  "transport \<Rightarrow> (string \<Rightarrow> string) \<Rightarrow> string \<Rightarrow> headers \<Rightarrow> real \<Rightarrow> nat \<Rightarrow> string \<Rightarrow> world
     \<Rightarrow> world \<times> (exn + json)" where
  "details_loop tr qp author_id hdrs bd 0 tried_fields w = (w, Inr JNull)"
| "details_loop tr qp author_id hdrs bd (Suc n) tried_fields w =
     (case safe_get tr (details_url qp author_id tried_fields) hdrs bd 6 w of
        (w1, Inl e) \<Rightarrow> (w1, Inl e)
      | (w1, Inr None) \<Rightarrow> (w1, Inr JNull)
      | (w1, Inr (Some r)) \<Rightarrow>
          if status_code r = 200 then
            (case resp_json r of
               None \<Rightarrow> (w1, Inr JNull)
             | Some j \<Rightarrow>
                 (save_cache (w1\<lparr>cache := (cache w1)(''author::'' @ author_id \<mapsto> j)\<rparr>), Inr j))
          else if status_code r = 400
                  \<and> contains (resp_text r) ''Unrecognized or unsupported fields''
                  \<and> contains tried_fields ''aliases''
          then details_loop tr qp author_id hdrs bd n (drop_aliases tried_fields) w1
          else (w1, Inr JNull))"

definition ss_get_author_details ::
  "transport \<Rightarrow> (string \<Rightarrow> string) \<Rightarrow> string option \<Rightarrow> string option \<Rightarrow> string \<Rightarrow> real \<Rightarrow> world
     \<Rightarrow> world \<times> (exn + json)" where
  "ss_get_author_details tr qp author_id api_key fields' bd w =
     (case author_id of
        None \<Rightarrow> (w, Inr JNull)
      | Some a \<Rightarrow>
          if a = [] then (w, Inr JNull)
          else (case cache w (''author::'' @ a) of
                  Some v \<Rightarrow> (w, Inr v)
                | None \<Rightarrow> details_loop tr qp a (api_headers api_key) bd 2 fields' w))"

text \<open>The default \<open>fields\<close> argument of \<open>ss_get_author_details\<close>.\<close>

definition DEFAULT_FIELDS :: string where
  "DEFAULT_FIELDS = ''name,hIndex,paperCount''"

text \<open>
  The two nested counting passes of \<open>ss_get_author_coauthors\<close>. \<open>co_counts\<close> is a dict in insertion
  order; a name that is a list or a dict cannot be a key (\<open>TypeError\<close>), and \<open>True\<close> is
  the key \<open>1\<close>.
\<close>

fun hash_key :: "json \<Rightarrow> exn + json" where
  "hash_key (JArr xs) = Inl TypeError"
| "hash_key (JObj kvs) = Inl TypeError"
| "hash_key (JBool b) = Inr (JInt (if b then 1 else 0))"
| "hash_key v = Inr v"

fun dict_set :: "(json \<times> json) list \<Rightarrow> json \<Rightarrow> json \<Rightarrow> (json \<times> json) list" where
  "dict_set [] k v = [(k, v)]"
| "dict_set ((k', v') # kvs) k v = (if k' = k then (k', v) # kvs else (k', v') # dict_set kvs k v)"

definition count_of :: "(json \<times> json) list \<Rightarrow> json \<Rightarrow> int" where
  "count_of co_counts k = (case map_of co_counts k of Some (JInt n) \<Rightarrow> n | _ \<Rightarrow> 0)"

fun count_authors :: "json list \<Rightarrow> (json \<times> json) list \<Rightarrow> exn + (json \<times> json) list" where
  "count_authors [] co_counts = Inr co_counts"
| "count_authors (a # as) co_counts =
     (case dict_get a ''name'' JNull of
        Inl e \<Rightarrow> Inl e
      | Inr n1 \<Rightarrow>
          (case (if truthy n1 then Inr n1 else dict_get a ''authorName'' JNull) of
             Inl e \<Rightarrow> Inl e
           | Inr n2 \<Rightarrow>
               (let name = (if truthy n2 then n2 else JNull) in
                if \<not> truthy name then count_authors as co_counts
                else (case hash_key name of
                        Inl e \<Rightarrow> Inl e
                      | Inr k \<Rightarrow>
                          count_authors as (dict_set co_counts k (JInt (count_of co_counts k + 1)))))))"

fun count_papers :: "json list \<Rightarrow> (json \<times> json) list \<Rightarrow> exn + (json \<times> json) list" where
  "count_papers [] co_counts = Inr co_counts"
| "count_papers (p # ps) co_counts =
     (case dict_get p ''authors'' (JArr []) of
        Inl e \<Rightarrow> Inl e
      | Inr au \<Rightarrow>
          (case py_iter (if truthy au then au else JArr []) of
             Inl e \<Rightarrow> Inl e
           | Inr as \<Rightarrow>
               (case count_authors as co_counts of
                  Inl e \<Rightarrow> Inl e
                | Inr co_counts' \<Rightarrow> count_papers ps co_counts')))"

text \<open>\<open>papers = j.get('data', []) if isinstance(j, dict) else []\<close>.\<close>

fun papers_of :: "json \<Rightarrow> json" where
  "papers_of (JObj kvs) = (case map_of kvs (JStr ''data'') of Some v \<Rightarrow> v | None \<Rightarrow> JArr [])"
| "papers_of _ = JArr []"

definition ss_get_author_coauthors ::
  "transport \<Rightarrow> string option \<Rightarrow> string option \<Rightarrow> int \<Rightarrow> real \<Rightarrow> world
     \<Rightarrow> world \<times> (exn + json)" where
  "ss_get_author_coauthors tr author_id api_key max_papers bd w =
     (case author_id of
        None \<Rightarrow> (w, Inr (JObj []))
      | Some a \<Rightarrow>
          if a = [] then (w, Inr (JObj []))
          else (let cache_key = ''coauthors::'' @ a in
                case cache w cache_key of
                  Some v \<Rightarrow> (w, Inr v)
                | None \<Rightarrow>
                    (let url = SS_BASE @ ''/author/'' @ a @ ''/papers?fields=title,authors&limit=''
                                 @ show_int max_papers
                     in case safe_get tr url (api_headers api_key) bd 6 w of
                          (w1, Inl e) \<Rightarrow> (w1, Inl e)
                        | (w1, Inr None) \<Rightarrow> (w1, Inr (JObj []))
                        | (w1, Inr (Some r)) \<Rightarrow>
                            if status_code r \<noteq> 200 then (w1, Inr (JObj []))
                            else (case resp_json r of
                                    None \<Rightarrow> (w1, Inr (JObj []))
                                  | Some j \<Rightarrow>
                                      (case py_iter (papers_of j) of
                                         Inl e \<Rightarrow> (w1, Inl e)
                                       | Inr papers \<Rightarrow>
                                           (case count_papers papers [] of
                                              Inl e \<Rightarrow> (w1, Inl e)
                                            | Inr co_counts \<Rightarrow>
                                                (save_cache
                                                   (w1\<lparr>cache := (cache w1)(cache_key \<mapsto> JObj co_counts)\<rparr>),
                                                 Inr (JObj co_counts))))))))"

section \<open>Author rows and the co-author index of the viewer\<close>

text \<open>
  A row of \<open>self.rows\<close> in \<open>hindex_gui_v3.1.1.py\<close>. The cells \<open>ss_name\<close>, \<open>hindex\<close>,
  \<open>papers\<close> and \<open>ss_id\<close> hold whatever the lookups returned (the empty string before
  any lookup). \<open>coauthors_list\<close> is the row's co-author dict, name to count, in insertion
  order (\<open>r.get('coauthors_list') or {}\<close>: a missing dict is the empty one).
\<close>

record author_row =
  zotero_name :: string
  ss_name :: json
  hindex :: json
  papers :: json
  ss_id :: json
  coauthors_list :: "(string \<times> int) list"
  flagged :: bool

text \<open>An entry of \<open>self.co_index\<close>.\<close>

record co_entry =
  entry_count :: int
  entry_mains :: "string set"
  entry_ss_name :: json
  entry_hindex :: json
  entry_papers :: json
  entry_ss_id :: json
  entry_flagged :: bool

text \<open>
  The default of \<open>self.co_index.get(co_name, {'count':0, 'mains':set(), 'ss_name':'', ...})\<close>.
\<close>

definition new_entry :: co_entry where
  "new_entry = \<lparr>entry_count = 0, entry_mains = {}, entry_ss_name = JStr [], entry_hindex = JStr [],
     entry_papers = JStr [], entry_ss_id = JStr [], entry_flagged = False\<rparr>"

text \<open>\<open>self.co_index[co_name] = entry\<close> on a dict kept in insertion order.\<close>

fun index_set :: "(string \<times> co_entry) list \<Rightarrow> string \<Rightarrow> co_entry \<Rightarrow> (string \<times> co_entry) list" where
  "index_set [] k v = [(k, v)]"
| "index_set ((k', v') # kvs) k v = (if k' = k then (k', v) # kvs else (k', v') # index_set kvs k v)"

text \<open>The body of the inner loop of \<open>build_coauthor_index\<close>, lines 669 to 674.\<close>

definition add_coauthor ::
  "author_row \<Rightarrow> (string \<times> co_entry) list \<Rightarrow> string \<times> int \<Rightarrow> (string \<times> co_entry) list" where
  "add_coauthor r co_index item =
     (case item of (co_name, cnt) \<Rightarrow>
        if co_name = [] then co_index
        else if JStr co_name = ss_name r then co_index
        else (let entry = (case map_of co_index co_name of Some e \<Rightarrow> e | None \<Rightarrow> new_entry);
                  entry' = entry\<lparr>entry_count := entry_count entry + cnt,
                                 entry_mains := insert (zotero_name r) (entry_mains entry)\<rparr>
              in index_set co_index co_name entry'))"

definition add_row :: "(string \<times> co_entry) list \<Rightarrow> author_row \<Rightarrow> (string \<times> co_entry) list" where
  "add_row co_index r = foldl (add_coauthor r) co_index (coauthors_list r)"

text \<open>The aggregation of \<open>build_coauthor_index\<close>, lines 666 to 674: \<open>self.co_index\<close> afterwards.\<close>

definition build_coauthor_index :: "author_row list \<Rightarrow> (string \<times> co_entry) list" where
  "build_coauthor_index rows = foldl add_row [] rows"

section \<open>Pinned ordering of the Authors tree\<close>

text \<open>
  \<open>xs.sort(key=k, reverse=desc)\<close>: Python's sort is stable, also under \<open>reverse=True\<close>,
  where elements with equal keys keep their original order.
\<close>

definition py_sort :: "('a \<Rightarrow> 'k::linorder) \<Rightarrow> bool \<Rightarrow> 'a list \<Rightarrow> 'a list" where
  "py_sort k desc xs = (if desc then rev (sort_key k (rev xs)) else sort_key k xs)"

text \<open>\<open>r.get(col)\<close> on a row.\<close>

definition row_get :: "author_row \<Rightarrow> string \<Rightarrow> json" where
  "row_get r c =
     (if c = ''zotero_name'' then JStr (zotero_name r)
      else if c = ''ss_name'' then ss_name r
      else if c = ''hindex'' then hindex r
      else if c = ''papers'' then papers r
      else if c = ''ss_id'' then ss_id r
      else if c = ''coauthors_list'' then JObj (map (\<lambda>(n, k). (JStr n, JInt k)) (coauthors_list r))
      else if c = ''flagged'' then JBool (flagged r)
      else JNull)"

text \<open>\<open>if col\<close>: the column is set when it is neither \<open>None\<close> nor the empty string.\<close>

definition col_set :: "string option \<Rightarrow> bool" where
  "col_set col \<longleftrightarrow> (case col of None \<Rightarrow> False | Some c \<Rightarrow> c \<noteq> [])"

text \<open>\<open>val = r.get(col) if col else r.get('zotero_name')\<close>.\<close>

definition sort_val :: "string option \<Rightarrow> author_row \<Rightarrow> json" where
  "sort_val col r = (if col_set col then row_get r (the col) else row_get r ''zotero_name'')"

text \<open>
  A Python float as a sort key: minus infinity, a finite number, plus infinity or
  not-a-number. Python compares floats as numbers; every comparison with not-a-number is
  false, so with such a key \<open>list.sort\<close> has no consistent order to follow and what it
  returns depends on its algorithm. The order below is Python's on the other floats and
  puts not-a-number first; what is proved about the order inside a partition is stated
  for sorts without a not-a-number key.
\<close>

datatype fnum = NaN | NegInf | Fin real | PosInf

instantiation fnum :: linorder
begin

fun less_eq_fnum :: "fnum \<Rightarrow> fnum \<Rightarrow> bool" where
  "less_eq_fnum NaN y = True"
| "less_eq_fnum NegInf y = (y \<noteq> NaN)"
| "less_eq_fnum (Fin a) (Fin b) = (a \<le> b)"
| "less_eq_fnum (Fin a) PosInf = True"
| "less_eq_fnum (Fin a) y = False"
| "less_eq_fnum PosInf y = (y = PosInf)"

definition less_fnum :: "fnum \<Rightarrow> fnum \<Rightarrow> bool" where
  "less_fnum x y \<longleftrightarrow> x \<le> y \<and> \<not> y \<le> x"

instance
proof
  fix x y z :: fnum
  show "(x < y) = (x \<le> y \<and> \<not> y \<le> x)"
    by (simp add: less_fnum_def)
  show "x \<le> x"
    by (cases x) simp_all
  show "x \<le> y \<Longrightarrow> y \<le> z \<Longrightarrow> x \<le> z"
    by (cases x; cases y; cases z) simp_all
  show "x \<le> y \<Longrightarrow> y \<le> x \<Longrightarrow> x = y"
    by (cases x; cases y) simp_all
  show "x \<le> y \<or> y \<le> x"
    by (cases x; cases y) auto
qed

end

text \<open>
  The keys \<open>sort_key\<close> returns: a float for the columns \<open>hindex\<close> and \<open>papers\<close>, a
  lower-cased string otherwise. All keys of one sort are of one kind; the order between
  the two kinds (Python would raise \<open>TypeError\<close>) never decides a comparison.
\<close>

datatype skey = Num fnum | Txt string

instantiation skey :: linorder
begin

fun less_eq_skey :: "skey \<Rightarrow> skey \<Rightarrow> bool" where
  "less_eq_skey (Num a) (Num b) = (a \<le> b)"
| "less_eq_skey (Txt s) (Txt t) = (s \<le> t)"
| "less_eq_skey (Num a) (Txt t) = True"
| "less_eq_skey (Txt s) (Num b) = False"

definition less_skey :: "skey \<Rightarrow> skey \<Rightarrow> bool" where
  "less_skey x y \<longleftrightarrow> x \<le> y \<and> \<not> y \<le> x"

instance
proof
  fix x y z :: skey
  show "(x < y) = (x \<le> y \<and> \<not> y \<le> x)"
    by (simp add: less_skey_def)
  show "x \<le> x"
    by (cases x) simp_all
  show "x \<le> y \<Longrightarrow> y \<le> z \<Longrightarrow> x \<le> z"
    by (cases x; cases y; cases z) auto
  show "x \<le> y \<Longrightarrow> y \<le> x \<Longrightarrow> x = y"
    by (cases x; cases y) auto
  show "x \<le> y \<or> y \<le> x"
    by (cases x; cases y) auto
qed

end

text \<open>
  The numeric branch of \<open>sort_key\<close>: \<open>float(val) if val not in (None, "") else float('-inf')\<close>,
  and \<open>float('-inf')\<close> when \<open>float\<close> raises. \<open>fl\<close> is Python's \<open>float\<close> on a cell, a builtin
  taken as a parameter: \<open>None\<close> when it raises (\<open>ValueError\<close> on text that is no number,
  \<open>TypeError\<close> on a list or dict, \<open>OverflowError\<close> on a huge integer), else the float it
  returns, rounded as Python rounds.
\<close>

definition num_key :: "(json \<Rightarrow> fnum option) \<Rightarrow> json \<Rightarrow> fnum" where
  "num_key fl v =
     (if v = JNull \<or> v = JStr [] then NegInf
      else (case fl v of Some x \<Rightarrow> x | None \<Rightarrow> NegInf))"

text \<open>
  The text branch: \<open>(val or '').lower()\<close>; only a string has \<open>lower\<close>. \<open>lw\<close> is
  \<open>str.lower\<close> on the names and identifiers in the cells, which folds all of Unicode: a
  library function taken as a parameter.
\<close>

fun txt_key :: "(string \<Rightarrow> string) \<Rightarrow> json \<Rightarrow> exn + string" where
  "txt_key lw (JStr s) = Inr (lw s)"
| "txt_key lw v = (if truthy v then Inl AttributeError else Inr (lw []))"

text \<open>The local function \<open>sort_key(r)\<close> of \<open>refresh_tree\<close>, lines 399 to 406.\<close>

definition sort_key_of ::
  "(json \<Rightarrow> fnum option) \<Rightarrow> (string \<Rightarrow> string) \<Rightarrow> string option \<Rightarrow> author_row \<Rightarrow> exn + skey" where
  "sort_key_of fl lw col r =
     (let v = sort_val col r in
      if col \<in> {Some ''hindex'', Some ''papers''} then Inr (Num (num_key fl v))
      else (case txt_key lw v of Inl e \<Rightarrow> Inl e | Inr s \<Rightarrow> Inr (Txt s)))"

text \<open>The key of a row whose key does not raise.\<close>

definition the_key ::
  "(json \<Rightarrow> fnum option) \<Rightarrow> (string \<Rightarrow> string) \<Rightarrow> string option \<Rightarrow> author_row \<Rightarrow> skey" where
  "the_key fl lw col r = (case sort_key_of fl lw col r of Inr k \<Rightarrow> k | Inl e \<Rightarrow> Txt [])"

text \<open>
  The order in which \<open>refresh_tree\<close> inserts the rows, lines 398 to 415. \<open>list.sort\<close>
  computes every key before it compares, so a key that raises aborts the call. Without a
  column the key is \<open>(r.get('zotero_name') or '').lower()\<close>.
\<close>

definition ordered_rows ::
  "(json \<Rightarrow> fnum option) \<Rightarrow> (string \<Rightarrow> string) \<Rightarrow> string option \<Rightarrow> bool \<Rightarrow> author_row list
     \<Rightarrow> exn + author_row list" where
  "ordered_rows fl lw col desc rows =
     (let flagged' = filter flagged rows;
          others = filter (\<lambda>r. \<not> flagged r) rows
      in if col_set col then
           (if list_ex (\<lambda>r. isl (sort_key_of fl lw col r)) rows then Inl AttributeError
            else Inr (py_sort (the_key fl lw col) desc flagged' @ py_sort (the_key fl lw col) desc others))
         else Inr (py_sort (\<lambda>r. Txt (lw (zotero_name r))) False flagged'
                     @ py_sort (\<lambda>r. Txt (lw (zotero_name r))) False others))"

text \<open>The columns of the Authors tree, whose headings call \<open>sort_by\<close> (line 94).\<close>

definition tree_cols :: "string list" where
  "tree_cols = [''zotero_name'', ''ss_name'', ''hindex'', ''papers'', ''ss_id'', ''coauthors_preview'']"

text \<open>A cell that holds a string or \<open>None\<close>.\<close>

fun text_cell :: "json \<Rightarrow> bool" where
  "text_cell (JStr s) = True"
| "text_cell JNull = True"
| "text_cell v = False"

section \<open>What the aggregation is to compute\<close>

text \<open>
  Following the specification of the aggregator: the contributions to co-author \<open>n\<close>, one
  pair of count and contributing \<open>zotero_name\<close> for every entry named \<open>n\<close> in the co-author
  dict of a row, left out when the name is empty or equals the row's own \<open>ss_name\<close>.
\<close>

definition row_contributions :: "string \<Rightarrow> author_row \<Rightarrow> (int \<times> string) list" where
  "row_contributions n r =
     map (\<lambda>(m, c). (c, zotero_name r))
       (filter (\<lambda>(m, c). m = n \<and> m \<noteq> [] \<and> JStr m \<noteq> ss_name r) (coauthors_list r))"

definition contributions :: "string \<Rightarrow> author_row list \<Rightarrow> (int \<times> string) list" where
  "contributions n rows = concat (map (row_contributions n) rows)"

text \<open>An index entry after a list of contributions has been added to it.\<close>

definition merged :: "co_entry option \<Rightarrow> (int \<times> string) list \<Rightarrow> co_entry option" where
  "merged base cs =
     (if cs = [] then base
      else (let e = (case base of Some e \<Rightarrow> e | None \<Rightarrow> new_entry)
            in Some (e\<lparr>entry_count := entry_count e + sum_list (map fst cs),
                       entry_mains := entry_mains e \<union> set (map snd cs)\<rparr>)))"

section \<open>Scenarios: concrete transports, responses and rows\<close>

text \<open>
  \<open>urllib.parse.quote_plus\<close> on ASCII text: letters, digits and \<open>_.-~\<close> stay, a space becomes
  \<open>+\<close>, any other character its percent escape.
\<close>

definition quote_char :: "char \<Rightarrow> string" where
  "quote_char c =
     (if c \<in> set ''ABCDEFGHIJKLMNOPQRSTUVWXYZabcdefghijklmnopqrstuvwxyz0123456789_.-~'' then [c]
      else if c = CHR '' '' then ''+''
      else [CHR ''%'', ''0123456789ABCDEF'' ! (of_char c div 16), ''0123456789ABCDEF'' ! (of_char c mod 16)])"

definition quote_plus :: "string \<Rightarrow> string" where
  "quote_plus s = concat (map quote_char s)"

text \<open>A fresh process: empty cache, nothing sent, nothing slept.\<close>

definition world0 :: world where
  "world0 = \<lparr>cache = Map.empty, sent = [], slept = [], saves = 0\<rparr>"

text \<open>
  Search and detail payloads for one author, and servers that answer with them, with no
  match, and with a JSON list where an object is expected.
\<close>

definition ada :: json where
  "ada = JObj [(JStr ''authorId'', JStr ''A1''), (JStr ''name'', JStr ''Ada Lovelace'')]"

definition ada_details :: json where
  "ada_details = JObj [(JStr ''authorId'', JStr ''A1''), (JStr ''name'', JStr ''Ada Lovelace''),
     (JStr ''hIndex'', JInt 3), (JStr ''paperCount'', JInt 7)]"

definition ok_response :: "json \<Rightarrow> response" where
  "ok_response j = \<lparr>status_code = 200, resp_text = ''{...}'', resp_json = Some j\<rparr>"

definition one_hit :: transport where
  "one_hit n u h = Responds (ok_response (JObj [(JStr ''total'', JInt 1), (JStr ''data'', JArr [ada])]))"



text \<open>Transports: a server that always fails, one that throttles three times, a dead network.\<close>

definition always_500 :: transport where
  "always_500 n u h = Responds \<lparr>status_code = 500, resp_text = ''Internal Server Error'', resp_json = None\<rparr>"


definition net_down :: transport where
  "net_down n u h = Raises"

text \<open>The API's rejection of a field list, for \<open>hIndex\<close> and for \<open>aliases\<close>.\<close>

definition bad_request :: "string \<Rightarrow> response" where
  "bad_request msg = \<lparr>status_code = 400, resp_text = msg, resp_json = None\<rparr>"

definition rejects_hindex :: transport where
  "rejects_hindex n u h = Responds (bad_request ''Unrecognized or unsupported fields: [hIndex]'')"

definition rejects_aliases :: transport where
  "rejects_aliases n u h =
     (if n = 0 then Responds (bad_request ''Unrecognized or unsupported fields: [aliases]'')
      else Responds (ok_response ada_details))"

text \<open>
  Rows of the Authors tree: a flagged author, an unflagged one whose \<open>ss_name\<close> differs from
  the imported name, a row whose co-author dict has an empty name, and a row as
  \<open>import_names_safely\<close> creates it (line 319). Each author's dict lists the author too, as
  the papers endpoint does.
\<close>

definition ada_row :: author_row where
  "ada_row = \<lparr>zotero_name = ''Ada Lovelace'', ss_name = JStr ''Ada Lovelace'', hindex = JInt 3,
     papers = JInt 7, ss_id = JStr ''A1'',
     coauthors_list = [(''Charles Babbage'', 2), (''Ada Lovelace'', 2)], flagged = True\<rparr>"

definition alan_row :: author_row where
  "alan_row = \<lparr>zotero_name = ''Alan Turing'', ss_name = JStr ''Alan M. Turing'', hindex = JInt 5,
     papers = JInt 9, ss_id = JStr ''A2'',
     coauthors_list = [(''Alonzo Church'', 3), (''Alan M. Turing'', 4), (''Charles Babbage'', 1)],
     flagged = False\<rparr>"

definition blank_name_row :: author_row where
  "blank_name_row = \<lparr>zotero_name = ''Grace Hopper'', ss_name = JStr ''Grace Hopper'', hindex = JStr [],
     papers = JStr [], ss_id = JStr ''A3'', coauthors_list = [([], 1)], flagged = False\<rparr>"

definition fresh_row :: "string \<Rightarrow> author_row" where
  "fresh_row n = \<lparr>zotero_name = n, ss_name = JStr [], hindex = JStr [], papers = JStr [],
     ss_id = JStr [], coauthors_list = [], flagged = False\<rparr>"

text \<open>
  \<open>float\<close> on the cells of the scenarios, integers of at most 53 bits and booleans, where
  it is exact; and \<open>lower\<close> above serves as \<open>str.lower\<close> on their ASCII names.
\<close>

definition float_small :: "json \<Rightarrow> fnum option" where
  "float_small v =
     (case v of
        JInt n \<Rightarrow> if \<bar>n\<bar> \<le> 2 ^ 53 then Some (Fin (of_int n)) else None
      | JBool b \<Rightarrow> Some (Fin (if b then 1 else 0))
      | _ \<Rightarrow> None)"

section \<open>Properties of \<open>safe_get\<close>\<close>

text \<open>
  As long as the responses are retried statuses, each attempt sends one request and sleeps
  once; after \<open>k\<close> of them the loop stands at attempt \<open>a + k\<close>.
\<close>

lemma safe_get_from_skip:
  assumes "\<forall>i<k. tr (length (sent w) + i) u h = Responds (rs i) \<and> retry_status (status_code (rs i))"
    and "0 \<le> bd"
  shows "safe_get_from tr u h bd a (k + m) lr w =
     safe_get_from tr u h bd (a + k) m (if k = 0 then lr else Some (rs (k - 1)))
       (w\<lparr>sent := sent w @ replicate k (u, h),
          slept := slept w @ map (\<lambda>i. backoff bd (a + i) (status_code (rs i))) [0..<k]\<rparr>)"
  using assms
proof (induction k arbitrary: a lr w rs)
  case 0
  then show ?case by simp
next
  case (Suc k)
  let ?w2 = "w\<lparr>sent := sent w @ [(u, h)], slept := slept w @ [backoff bd a (status_code (rs 0))]\<rparr>"
  from Suc.prems have r0: "tr (length (sent w)) u h = Responds (rs 0)" "retry_status (status_code (rs 0))"
    by force+
  have pos: "0 \<le> bd * 2 ^ a" using Suc.prems(2) by simp
  have step: "safe_get_from tr u h bd a (Suc k + m) lr w =
      safe_get_from tr u h bd (Suc a) (k + m) (Some (rs 0)) ?w2"
    using r0 pos by (auto simp: retry_status_def backoff_def sleep_def Let_def)
  have "\<forall>i<k. tr (length (sent ?w2) + i) u h = Responds ((rs \<circ> Suc) i) \<and> retry_status (status_code ((rs \<circ> Suc) i))"
    using Suc.prems(1) by auto
  from Suc.IH[OF this Suc.prems(2), of "Suc a" "Some (rs 0)"]
  have ih: "safe_get_from tr u h bd (Suc a) (k + m) (Some (rs 0)) ?w2 =
     safe_get_from tr u h bd (Suc a + k) m (if k = 0 then Some (rs 0) else Some ((rs \<circ> Suc) (k - 1)))
       (?w2\<lparr>sent := sent ?w2 @ replicate k (u, h),
          slept := slept ?w2 @ map (\<lambda>i. backoff bd (Suc a + i) (status_code ((rs \<circ> Suc) i))) [0..<k]\<rparr>)" .
  have m: "map (\<lambda>i. backoff bd (a + i) (status_code (rs i))) [0..<Suc k] =
      backoff bd a (status_code (rs 0)) # map (\<lambda>i. backoff bd (Suc a + i) (status_code ((rs \<circ> Suc) i))) [0..<k]"
    by (simp add: upt_conv_Cons map_Suc_upt[symmetric] del: upt_Suc)
  have l: "(if k = 0 then Some (rs 0) else Some ((rs \<circ> Suc) (k - 1))) = Some (rs (Suc k - 1))"
    by (cases k) auto
  show ?case
    unfolding step ih l m by (simp add: replicate_append_same)
qed

text \<open>\<open>safe_get\<close> touches neither the cache nor the cache file.\<close>

lemma safe_get_from_cache: "cache (fst (safe_get_from tr u h bd a n lr w)) = cache w"
proof (induction n arbitrary: a lr w)
  case 0
  then show ?case by simp
next
  case (Suc n)
  show ?case
    by (auto simp: Let_def sleep_def Suc.IH split: outcome.splits sum.splits)
qed

lemma safe_get_cache: "safe_get tr u h bd mr w = (w1, out) \<Longrightarrow> cache w1 = cache w"
  using safe_get_from_cache[of tr u h bd 0 "nat mr" None w] by (simp add: safe_get_def)

text \<open>A first response that is not retried, or a network exception, ends the call at once.\<close>

lemma safe_get_six: "safe_get tr u h bd 6 w = safe_get_from tr u h bd 0 (Suc 5) None w"
  by (simp add: safe_get_def)

lemma safe_get_first_final:
  assumes "tr (length (sent w)) u h = Responds r" and "\<not> retry_status (status_code r)"
  shows "safe_get tr u h bd 6 w = (w\<lparr>sent := sent w @ [(u, h)]\<rparr>, Inr (Some r))"
  unfolding safe_get_six using assms
  by (simp add: retry_status_def Let_def del: Suc_numeral)

lemma safe_get_first_raises:
  assumes "tr (length (sent w)) u h = Raises"
  shows "safe_get tr u h bd 6 w = (w\<lparr>sent := sent w @ [(u, h)]\<rparr>, Inr None)"
  unfolding safe_get_six using assms
  by (simp add: Let_def del: Suc_numeral)

text \<open>
  Claim C3 (retry ceiling). With a transport that answers 500 to each of the next six
  requests and \<open>max_retries = 6\<close>, \<open>safe_get\<close> sends exactly six requests and returns the
  sixth response: no exception, not \<open>None\<close>. The delay \<open>base_delay\<close> is a duration, so not
  negative (\<open>time.sleep\<close> rejects a negative one).
\<close>

theorem retry_ceiling:
  assumes "\<forall>i<6. tr (length (sent w) + i) u h = Responds (rs i) \<and> status_code (rs i) = 500"
    and "0 \<le> bd"
  shows "snd (safe_get tr u h bd 6 w) = Inr (Some (rs 5))
    \<and> sent (fst (safe_get tr u h bd 6 w)) = sent w @ replicate 6 (u, h)
    \<and> length (sent (fst (safe_get tr u h bd 6 w))) = length (sent w) + 6"
proof -
  have "\<forall>i<6. tr (length (sent w) + i) u h = Responds (rs i) \<and> retry_status (status_code (rs i))"
    using assms(1) by (simp add: retry_status_def)
  from safe_get_from_skip[where k=6 and rs=rs and tr=tr and w=w and u=u and h=h and a=0 and m=0 and lr=None,
      OF this assms(2)]
  show ?thesis by (simp add: safe_get_def)
qed

text \<open>The ceiling on the always-failing server, with the default delay of 3 seconds.\<close>

theorem retry_ceiling_witness:
  "always_500 5 ''u'' [] =
        Responds \<lparr>status_code = 500, resp_text = ''Internal Server Error'', resp_json = None\<rparr>
   \<and> (0::real) \<le> 3
   \<and> snd (safe_get always_500 ''u'' [] 3 6 world0) =
        Inr (Some \<lparr>status_code = 500, resp_text = ''Internal Server Error'', resp_json = None\<rparr>)
   \<and> sent (fst (safe_get always_500 ''u'' [] 3 6 world0)) = replicate 6 (''u'', [])
   \<and> length (sent (fst (safe_get always_500 ''u'' [] 3 6 world0))) = 6"
proof -
  have h1: "\<forall>i<6. always_500 (length (sent world0) + i) ''u'' [] =
        Responds ((\<lambda>_. \<lparr>status_code = 500, resp_text = ''Internal Server Error'', resp_json = None\<rparr>) i)
      \<and> status_code ((\<lambda>_. \<lparr>status_code = 500, resp_text = ''Internal Server Error'', resp_json = None\<rparr>) i) = 500"
    by (simp add: always_500_def)
  have h2: "(0::real) \<le> 3" by simp
  have s0: "sent world0 = []" by (simp add: world0_def)
  from retry_ceiling[where rs="\<lambda>_. \<lparr>status_code = 500, resp_text = ''Internal Server Error'', resp_json = None\<rparr>"
      and tr=always_500 and w=world0 and u="''u''" and h="[]" and bd=3, OF h1 h2] s0
  show ?thesis by (simp add: always_500_def)
qed



section \<open>Properties of the lookups\<close>

text \<open>A cached key answers without any effect.\<close>

lemma search_hit:
  "cache w (''search::'' @ name) = Some v \<Longrightarrow> ss_search_author tr qp name k bd w = (w, Inr v)"
  by (simp add: ss_search_author_def)

text \<open>
  The top result: the first element of the \<open>data\<close> list of a JSON object, \<open>None\<close> when the
  list is empty or missing; a body that is not an object has no \<open>get\<close>.
\<close>

lemma top_of_shapes:
  "map_of kvs (JStr ''data'') = None \<Longrightarrow> top_of (JObj kvs) = Inr JNull"
  "map_of kvs (JStr ''data'') = Some (JArr []) \<Longrightarrow> top_of (JObj kvs) = Inr JNull"
  "map_of kvs (JStr ''data'') = Some (JArr (x # xs)) \<Longrightarrow> top_of (JObj kvs) = Inr x"
  "top_of JNull = Inl AttributeError" "top_of (JBool b) = Inl AttributeError"
  "top_of (JInt n) = Inl AttributeError" "top_of (JStr s) = Inl AttributeError"
  "top_of (JArr ys) = Inl AttributeError"
  by (simp_all add: top_of_def)

lemma top_of_one: "top_of (JObj [(JStr ''total'', JInt 1), (JStr ''data'', JArr [ada])]) = Inr ada"
  by (simp add: top_of_def)



lemma drop_aliases_example: "drop_aliases ''name,aliases,hIndex,paperCount'' = ''name,hIndex,paperCount''"
  by (simp add: drop_aliases_def strip_def is_space_def lower_def lower_char_def)

text \<open>
  Claim C1 (memoization idempotence), as the code has it. For a name that is not cached,
  when the first request is answered by a 200 whose body parses and has a top result \<open>t\<close>
  (possibly \<open>None\<close>), the first call sends exactly one request, stores \<open>t\<close> under
  \<open>search::<name>\<close> and returns it; the second call returns the same value and leaves the
  world as it is: one request over both calls.
\<close>

theorem search_memoized:
  assumes miss: "cache w (''search::'' @ name) = None"
    and first: "tr (length (sent w)) (search_url qp name) (api_headers k) = Responds r"
    and ok: "status_code r = 200" "resp_json r = Some j" "top_of j = Inr t"
  shows "snd (ss_search_author tr qp name k bd w) = Inr t
    \<and> cache (fst (ss_search_author tr qp name k bd w)) (''search::'' @ name) = Some t
    \<and> ss_search_author tr qp name k bd (fst (ss_search_author tr qp name k bd w)) =
          (fst (ss_search_author tr qp name k bd w), Inr t)
    \<and> sent (fst (ss_search_author tr qp name k bd w)) = sent w @ [(search_url qp name, api_headers k)]"
proof -
  have "\<not> retry_status (status_code r)" using ok(1) by (simp add: retry_status_def)
  from safe_get_first_final[where tr=tr and w=w and u="search_url qp name" and h="api_headers k" and r=r,
      OF first this]
  have sg: "safe_get tr (search_url qp name) (api_headers k) bd 6 w =
      (w\<lparr>sent := sent w @ [(search_url qp name, api_headers k)]\<rparr>, Inr (Some r))" .
  define w1 where "w1 = save_cache (w\<lparr>sent := sent w @ [(search_url qp name, api_headers k)],
                      cache := (cache w)(''search::'' @ name \<mapsto> t)\<rparr>)"
  have r1: "ss_search_author tr qp name k bd w = (w1, Inr t)"
    using miss ok by (simp add: ss_search_author_def sg w1_def)
  have hit: "cache w1 (''search::'' @ name) = Some t"
    unfolding w1_def by (simp add: save_cache_def)
  have r2: "ss_search_author tr qp name k bd w1 = (w1, Inr t)"
    using search_hit[OF hit] .
  have "sent w1 = sent w @ [(search_url qp name, api_headers k)]"
    unfolding w1_def by (simp add: save_cache_def)
  with r1 r2 hit show ?thesis by simp
qed

text \<open>Two searches for Ada Lovelace against a server that knows her.\<close>

theorem search_memoized_witness:
  "cache world0 (''search::'' @ ''Ada Lovelace'') = None
   \<and> one_hit (length (sent world0)) (search_url quote_plus ''Ada Lovelace'') (api_headers None) =
        Responds (ok_response (JObj [(JStr ''total'', JInt 1), (JStr ''data'', JArr [ada])]))
   \<and> status_code (ok_response (JObj [(JStr ''total'', JInt 1), (JStr ''data'', JArr [ada])])) = 200
   \<and> snd (ss_search_author one_hit quote_plus ''Ada Lovelace'' None 3 world0) = Inr ada
   \<and> ss_search_author one_hit quote_plus ''Ada Lovelace'' None 3
        (fst (ss_search_author one_hit quote_plus ''Ada Lovelace'' None 3 world0)) =
      (fst (ss_search_author one_hit quote_plus ''Ada Lovelace'' None 3 world0), Inr ada)
   \<and> length (sent (fst (ss_search_author one_hit quote_plus ''Ada Lovelace'' None 3 world0))) = 1"
proof -
  have miss: "cache world0 (''search::'' @ ''Ada Lovelace'') = None"
    by (simp add: world0_def)
  have first: "one_hit (length (sent world0)) (search_url quote_plus ''Ada Lovelace'') (api_headers None) =
        Responds (ok_response (JObj [(JStr ''total'', JInt 1), (JStr ''data'', JArr [ada])]))"
    by (simp add: one_hit_def)
  have ok: "status_code (ok_response (JObj [(JStr ''total'', JInt 1), (JStr ''data'', JArr [ada])])) = 200"
    "resp_json (ok_response (JObj [(JStr ''total'', JInt 1), (JStr ''data'', JArr [ada])])) =
       Some (JObj [(JStr ''total'', JInt 1), (JStr ''data'', JArr [ada])])"
    by (simp_all add: ok_response_def)
  have s0: "sent world0 = []" by (simp add: world0_def)
  from search_memoized[where tr=one_hit and qp=quote_plus and name="''Ada Lovelace''" and k=None
      and w=world0 and bd=3, OF miss first ok top_of_one] miss first ok(1) s0
  show ?thesis by simp
qed

text \<open>
  Claim C1 as stated fails when the search fails: with the network down, two searches for
  the same name send two requests.
\<close>

theorem search_twice_net_down:
  "length (sent (fst (ss_search_author net_down quote_plus ''Ada Lovelace'' None 3
       (fst (ss_search_author net_down quote_plus ''Ada Lovelace'' None 3 world0))))) = 2"
  by (simp add: ss_search_author_def world0_def safe_get_first_raises net_down_def)




text \<open>
  Claim C9 (unsupported-field fallback), as the code has it. On a cache miss, when the
  first fetch ends in a response other than 200: if it is a 400 whose text contains
  \<open>Unrecognized or unsupported fields\<close> and the requested field list contains \<open>aliases\<close>,
  there is exactly one more fetch, for the field list without its \<open>aliases\<close> fields, and its
  outcome is final (cached only when it is a 200 that parses); otherwise the call returns
  \<open>None\<close> and the cache is as before.
\<close>

theorem details_fallback:
  assumes aid: "author_id \<noteq> []" and miss: "cache w (''author::'' @ author_id) = None"
    and sg: "safe_get tr (details_url qp author_id fs) (api_headers k) bd 6 w = (ws, Inr (Some r))"
    and non200: "status_code r \<noteq> 200"
  shows "(status_code r = 400 \<and> contains (resp_text r) ''Unrecognized or unsupported fields''
            \<and> contains fs ''aliases'' \<longrightarrow>
          (\<forall>ws2 out2.
             safe_get tr (details_url qp author_id (drop_aliases fs)) (api_headers k) bd 6 ws = (ws2, out2) \<longrightarrow>
             ss_get_author_details tr qp (Some author_id) k fs bd w =
               (case out2 of
                  Inl e \<Rightarrow> (ws2, Inl e)
                | Inr None \<Rightarrow> (ws2, Inr JNull)
                | Inr (Some r2) \<Rightarrow>
                    if status_code r2 = 200 then
                      (case resp_json r2 of
                         None \<Rightarrow> (ws2, Inr JNull)
                       | Some j \<Rightarrow>
                           (save_cache (ws2\<lparr>cache := (cache ws2)(''author::'' @ author_id \<mapsto> j)\<rparr>), Inr j))
                    else (ws2, Inr JNull))))
     \<and> (\<not> (status_code r = 400 \<and> contains (resp_text r) ''Unrecognized or unsupported fields''
              \<and> contains fs ''aliases'') \<longrightarrow>
          ss_get_author_details tr qp (Some author_id) k fs bd w = (ws, Inr JNull) \<and> cache ws = cache w)"
proof -
  have cw: "cache ws = cache w" using safe_get_cache[OF sg] .
  have two: "(2::nat) = Suc (Suc 0)" by simp
  have start: "ss_get_author_details tr qp (Some author_id) k fs bd w =
      details_loop tr qp author_id (api_headers k) bd (Suc (Suc 0)) fs w"
    using aid miss by (simp add: ss_get_author_details_def two del: One_nat_def)
  let ?P = "status_code r = 400 \<and> contains (resp_text r) ''Unrecognized or unsupported fields''
            \<and> contains fs ''aliases''"
  have retry: "ss_get_author_details tr qp (Some author_id) k fs bd w =
               (case out2 of
                  Inl e \<Rightarrow> (ws2, Inl e)
                | Inr None \<Rightarrow> (ws2, Inr JNull)
                | Inr (Some r2) \<Rightarrow>
                    if status_code r2 = 200 then
                      (case resp_json r2 of
                         None \<Rightarrow> (ws2, Inr JNull)
                       | Some j \<Rightarrow>
                           (save_cache (ws2\<lparr>cache := (cache ws2)(''author::'' @ author_id \<mapsto> j)\<rparr>), Inr j))
                    else (ws2, Inr JNull))"
    if p: ?P and sg2: "safe_get tr (details_url qp author_id (drop_aliases fs)) (api_headers k) bd 6 ws = (ws2, out2)"
    for ws2 out2
  proof -
    have "details_loop tr qp author_id (api_headers k) bd (Suc (Suc 0)) fs w =
        details_loop tr qp author_id (api_headers k) bd (Suc 0) (drop_aliases fs) ws"
      using p sg non200 by simp
    also have "\<dots> = (case out2 of
                  Inl e \<Rightarrow> (ws2, Inl e)
                | Inr None \<Rightarrow> (ws2, Inr JNull)
                | Inr (Some r2) \<Rightarrow>
                    if status_code r2 = 200 then
                      (case resp_json r2 of
                         None \<Rightarrow> (ws2, Inr JNull)
                       | Some j \<Rightarrow>
                           (save_cache (ws2\<lparr>cache := (cache ws2)(''author::'' @ author_id \<mapsto> j)\<rparr>), Inr j))
                    else (ws2, Inr JNull))"
      using sg2 by (simp split: sum.splits option.splits)
    finally show ?thesis using start by simp
  qed
  have final: "ss_get_author_details tr qp (Some author_id) k fs bd w = (ws, Inr JNull) \<and> cache ws = cache w"
    if np: "\<not> ?P"
  proof -
    have "details_loop tr qp author_id (api_headers k) bd (Suc (Suc 0)) fs w = (ws, Inr JNull)"
      using np sg non200 by auto
    then show ?thesis using start cw by simp
  qed
  from retry final show ?thesis by blast
qed

text \<open>
  A server rejecting \<open>aliases\<close> gets a second request without it; a server rejecting
  \<open>hIndex\<close> ends the lookup.
\<close>

theorem details_fallback_witness:
  "''A1'' \<noteq> [] \<and> cache world0 (''author::'' @ ''A1'') = None
   \<and> ss_get_author_details rejects_aliases quote_plus (Some ''A1'') None ''name,aliases,hIndex,paperCount'' 3 world0 =
       (\<lparr>cache = [''author::A1'' \<mapsto> ada_details],
         sent = [(details_url quote_plus ''A1'' ''name,aliases,hIndex,paperCount'', []),
                 (details_url quote_plus ''A1'' ''name,hIndex,paperCount'', [])],
         slept = [], saves = 1\<rparr>, Inr ada_details)
   \<and> ss_get_author_details rejects_hindex quote_plus (Some ''A1'') None DEFAULT_FIELDS 3 world0 =
       (world0\<lparr>sent := [(details_url quote_plus ''A1'' DEFAULT_FIELDS, [])]\<rparr>, Inr JNull)"
proof -
  let ?fs = "''name,aliases,hIndex,paperCount''"
  let ?u1 = "details_url quote_plus ''A1'' ?fs"
  let ?u2 = "details_url quote_plus ''A1'' (drop_aliases ?fs)"
  let ?u3 = "details_url quote_plus ''A1'' DEFAULT_FIELDS"
  let ?w1 = "world0\<lparr>sent := sent world0 @ [(?u1, api_headers None)]\<rparr>"
  let ?w2 = "?w1\<lparr>sent := sent ?w1 @ [(?u2, api_headers None)]\<rparr>"
  let ?w3 = "world0\<lparr>sent := sent world0 @ [(?u3, api_headers None)]\<rparr>"
  have aid: "''A1'' \<noteq> []" by simp
  have miss: "cache world0 (''author::'' @ ''A1'') = None" by (simp add: world0_def)
  have sg1: "safe_get rejects_aliases ?u1 (api_headers None) 3 6 world0 =
      (?w1, Inr (Some (bad_request ''Unrecognized or unsupported fields: [aliases]'')))"
    by (rule safe_get_first_final)
      (simp_all add: rejects_aliases_def bad_request_def retry_status_def world0_def)
  have sg2: "safe_get rejects_aliases ?u2 (api_headers None) 3 6 ?w1 = (?w2, Inr (Some (ok_response ada_details)))"
    by (rule safe_get_first_final)
      (simp_all add: rejects_aliases_def ok_response_def retry_status_def world0_def)
  have sg3: "safe_get rejects_hindex ?u3 (api_headers None) 3 6 world0 =
      (?w3, Inr (Some (bad_request ''Unrecognized or unsupported fields: [hIndex]'')))"
    by (rule safe_get_first_final)
      (simp_all add: rejects_hindex_def bad_request_def retry_status_def)
  have n1: "status_code (bad_request ''Unrecognized or unsupported fields: [aliases]'') \<noteq> 200"
    and n3: "status_code (bad_request ''Unrecognized or unsupported fields: [hIndex]'') \<noteq> 200"
    by (simp_all add: bad_request_def)
  have p1: "status_code (bad_request ''Unrecognized or unsupported fields: [aliases]'') = 400
      \<and> contains (resp_text (bad_request ''Unrecognized or unsupported fields: [aliases]''))
           ''Unrecognized or unsupported fields''
      \<and> contains ?fs ''aliases''"
    by (simp add: bad_request_def)
  have p3: "\<not> contains DEFAULT_FIELDS ''aliases''"
    by (simp add: DEFAULT_FIELDS_def)
  have a: "ss_get_author_details rejects_aliases quote_plus (Some ''A1'') None ?fs 3 world0 =
      (save_cache (?w2\<lparr>cache := (cache ?w2)(''author::'' @ ''A1'' \<mapsto> ada_details)\<rparr>), Inr ada_details)"
    using details_fallback[OF aid miss sg1 n1] p1 sg2 by (simp add: ok_response_def)
  have b: "ss_get_author_details rejects_hindex quote_plus (Some ''A1'') None DEFAULT_FIELDS 3 world0 =
      (?w3, Inr JNull)"
    using details_fallback[OF aid miss sg3 n3] p3 by simp
  show ?thesis
    unfolding a b
    by (simp add: world0_def save_cache_def api_headers_def drop_aliases_example)
qed

text \<open>
  Claim C9 as stated fails for a field other than \<open>aliases\<close>: the details lookup with its
  default fields, told that \<open>hIndex\<close> is unsupported, sends one request and returns \<open>None\<close>.
\<close>

theorem unsupported_hindex_not_retried:
  "snd (ss_get_author_details rejects_hindex quote_plus (Some ''A1'') None DEFAULT_FIELDS 3 world0) = Inr JNull
   \<and> length (sent (fst (ss_get_author_details rejects_hindex quote_plus (Some ''A1'') None DEFAULT_FIELDS 3 world0))) = 1"
proof -
  have "\<not> contains DEFAULT_FIELDS ''aliases''"
    by (simp add: DEFAULT_FIELDS_def)
  moreover have "safe_get rejects_hindex u h 3 6 world0 =
     (world0\<lparr>sent := sent world0 @ [(u, h)]\<rparr>, Inr (Some (bad_request ''Unrecognized or unsupported fields: [hIndex]'')))" for u h
    by (rule safe_get_first_final) (simp_all add: rejects_hindex_def bad_request_def retry_status_def)
  ultimately show ?thesis
    by (simp add: ss_get_author_details_def numeral_2_eq_2 world0_def bad_request_def)
qed

text \<open>
  Claim C10 (empty-id guard). For an author id that is \<open>None\<close> or the empty string,
  \<open>ss_get_author_details\<close> returns \<open>None\<close> and \<open>ss_get_author_coauthors\<close> returns the empty
  dict, and the world is unchanged: nothing sent, nothing cached, nothing saved.
\<close>

theorem empty_id_guard:
  "ss_get_author_details tr qp None api_key fs bd w = (w, Inr JNull)
   \<and> ss_get_author_details tr qp (Some []) api_key fs bd w = (w, Inr JNull)
   \<and> ss_get_author_coauthors tr None api_key max_papers bd w = (w, Inr (JObj []))
   \<and> ss_get_author_coauthors tr (Some []) api_key max_papers bd w = (w, Inr (JObj []))"
  by (simp add: ss_get_author_details_def ss_get_author_coauthors_def)

section \<open>Properties of the aggregation\<close>

text \<open>
  Read as a map, the index after a fold is the index before it with the contributions of
  the folded entries merged in, name by name.
\<close>

lemma map_of_index_set: "map_of (index_set idx k v) = (map_of idx)(k \<mapsto> v)"
  by (induction idx k v rule: index_set.induct) (auto simp: fun_eq_iff)

lemma merged_Nil: "merged base [] = base"
  by (simp add: merged_def)

lemma merged_append: "merged (merged base cs) ds = merged base (cs @ ds)"
proof -
  have c: "a + x + y = a + (x + y)" for a x y :: int by simp
  show ?thesis
    by (cases "cs = []"; cases "ds = []")
      (simp_all add: merged_def Let_def c Un_assoc image_Un split: option.splits)
qed

lemma map_of_add_coauthor:
  "map_of (add_coauthor r idx (m, c)) n =
     merged (map_of idx n) (if m = n \<and> m \<noteq> [] \<and> JStr m \<noteq> ss_name r then [(c, zotero_name r)] else [])"
  by (auto simp: add_coauthor_def map_of_index_set merged_def Let_def split: option.splits)

lemma map_of_fold_coauthors:
  "map_of (foldl (add_coauthor r) idx xs) n =
     merged (map_of idx n)
       (map (\<lambda>(m, c). (c, zotero_name r)) (filter (\<lambda>(m, c). m = n \<and> m \<noteq> [] \<and> JStr m \<noteq> ss_name r) xs))"
proof (induction xs arbitrary: idx)
  case Nil
  then show ?case by (simp add: merged_Nil)
next
  case (Cons x xs)
  obtain m c where x: "x = (m, c)" by (cases x)
  show ?case
    unfolding x foldl_Cons Cons.IH map_of_add_coauthor merged_append
    by (cases "m = n \<and> m \<noteq> [] \<and> JStr m \<noteq> ss_name r") auto
qed

lemma map_of_add_row: "map_of (add_row idx r) n = merged (map_of idx n) (row_contributions n r)"
  by (simp add: add_row_def row_contributions_def map_of_fold_coauthors)

lemma map_of_fold_rows:
  "map_of (foldl add_row idx rows) n = merged (map_of idx n) (contributions n rows)"
proof (induction rows arbitrary: idx)
  case Nil
  then show ?case by (simp add: contributions_def merged_Nil)
next
  case (Cons r rows)
  show ?case
    unfolding foldl_Cons Cons.IH map_of_add_row merged_append
    by (simp add: contributions_def)
qed

lemma map_of_build:
  "map_of (build_coauthor_index rows) n =
     (if contributions n rows = [] then None
      else Some (new_entry\<lparr>entry_count := sum_list (map fst (contributions n rows)),
                           entry_mains := set (map snd (contributions n rows))\<rparr>))"
  by (simp add: build_coauthor_index_def map_of_fold_rows merged_def new_entry_def)

text \<open>The contributions to a name are the same multiset for every order of the rows.\<close>

lemma mset_contributions:
  assumes "mset rows = mset rows'"
  shows "mset (contributions n rows) = mset (contributions n rows')"
proof -
  have "mset (contributions n rs) = (\<Sum>r\<in>#mset rs. mset (row_contributions n r))" for rs
    by (induction rs) (simp_all add: contributions_def)
  then show ?thesis using assms by simp
qed

lemma build_permutation:
  assumes "mset rows = mset rows'"
  shows "map_of (build_coauthor_index rows) n = map_of (build_coauthor_index rows') n"
proof -
  let ?cs = "contributions n rows" and ?ds = "contributions n rows'"
  have m: "mset ?cs = mset ?ds" using mset_contributions[OF assms] .
  have 1: "?cs = [] \<longleftrightarrow> ?ds = []"
    using m by (metis mset_zero_iff)
  have "sum_mset (image_mset fst (mset ?cs)) = sum_mset (image_mset fst (mset ?ds))"
    using m by simp
  then have 2: "sum_list (map fst ?cs) = sum_list (map fst ?ds)"
    by (simp add: sum_mset_sum_list flip: mset_map)
  have "set ?cs = set ?ds" using m by (rule mset_eq_setD)
  then have 3: "set (map snd ?cs) = set (map snd ?ds)" by simp
  show ?thesis unfolding map_of_build using 1 2 3 by simp
qed

text \<open>The index of the two example authors, in both orders of the rows.\<close>

lemma build_ada_alan:
  "build_coauthor_index [ada_row, alan_row] =
     [(''Charles Babbage'', new_entry\<lparr>entry_count := 3, entry_mains := {''Ada Lovelace'', ''Alan Turing''}\<rparr>),
      (''Alonzo Church'', new_entry\<lparr>entry_count := 3, entry_mains := {''Alan Turing''}\<rparr>)]"
  by (simp add: build_coauthor_index_def add_row_def add_coauthor_def ada_row_def alan_row_def
      new_entry_def insert_commute)

lemma build_alan_ada:
  "build_coauthor_index [alan_row, ada_row] =
     [(''Alonzo Church'', new_entry\<lparr>entry_count := 3, entry_mains := {''Alan Turing''}\<rparr>),
      (''Charles Babbage'', new_entry\<lparr>entry_count := 3, entry_mains := {''Ada Lovelace'', ''Alan Turing''}\<rparr>)]"
  by (simp add: build_coauthor_index_def add_row_def add_coauthor_def ada_row_def alan_row_def
      new_entry_def insert_commute)

text \<open>
  Claim C5 (aggregation order-independence). For two row sequences that are permutations
  of each other, \<open>build_coauthor_index\<close> yields for every co-author name the same entry:
  present in both or in neither, with identical \<open>count\<close> and identical \<open>mains\<close>. With
  \<open>rows' = rows\<close> this is the re-run from scratch.
\<close>

theorem aggregation_order_independent:
  assumes "mset rows = mset rows'"
  shows "map_of (build_coauthor_index rows) n = map_of (build_coauthor_index rows') n
    \<and> map_option entry_count (map_of (build_coauthor_index rows) n) =
        map_option entry_count (map_of (build_coauthor_index rows') n)
    \<and> map_option entry_mains (map_of (build_coauthor_index rows) n) =
        map_option entry_mains (map_of (build_coauthor_index rows') n)"
  using build_permutation[OF assms, of n] by simp

text \<open>
  Ada before Alan and Alan before Ada: the dicts differ in insertion order, the entry of
  Charles Babbage is the same.
\<close>

theorem aggregation_order_independent_witness:
  "mset [ada_row, alan_row] = mset [alan_row, ada_row]
   \<and> map_of (build_coauthor_index [ada_row, alan_row]) ''Charles Babbage'' =
       map_of (build_coauthor_index [alan_row, ada_row]) ''Charles Babbage''
   \<and> map_of (build_coauthor_index [alan_row, ada_row]) ''Charles Babbage'' =
       Some (new_entry\<lparr>entry_count := 3, entry_mains := {''Ada Lovelace'', ''Alan Turing''}\<rparr>)
   \<and> build_coauthor_index [ada_row, alan_row] \<noteq> build_coauthor_index [alan_row, ada_row]"
proof -
  have p: "mset [ada_row, alan_row] = mset [alan_row, ada_row]"
    by (simp add: add_mset_commute)
  from aggregation_order_independent[OF p, of "''Charles Babbage''"] p
  show ?thesis
    by (simp add: build_alan_ada) (simp add: build_ada_alan)
qed

text \<open>
  Claim C6 (self-name exclusion), as the code has it. The entry of a name in the aggregate
  is made of exactly the contributions to it: an entry of a row's co-author dict whose
  name equals the row's own \<open>ss_name\<close> contributes neither count nor main, nor does an
  entry with an empty name; every other entry adds its count to the total and the row's
  \<open>zotero_name\<close> to \<open>mains\<close>. A name without contributions has no entry.
\<close>

theorem self_name_exclusion:
  "map_of (build_coauthor_index rows) n =
     (if contributions n rows = [] then None
      else Some (new_entry\<lparr>entry_count := sum_list (map fst (contributions n rows)),
                           entry_mains := set (map snd (contributions n rows))\<rparr>))"
  by (rule map_of_build)

text \<open>
  Ada's dict names Ada herself: there is no entry for her, and Charles Babbage has the
  counts of both rows.
\<close>

theorem self_name_exclusion_witness:
  "contributions ''Ada Lovelace'' [ada_row, alan_row] = []
   \<and> map_of (build_coauthor_index [ada_row, alan_row]) ''Ada Lovelace'' = None
   \<and> contributions ''Charles Babbage'' [ada_row, alan_row] = [(2, ''Ada Lovelace''), (1, ''Alan Turing'')]
   \<and> map_of (build_coauthor_index [ada_row, alan_row]) ''Charles Babbage'' =
       Some (new_entry\<lparr>entry_count := 3, entry_mains := {''Ada Lovelace'', ''Alan Turing''}\<rparr>)"
proof -
  have a: "contributions ''Ada Lovelace'' [ada_row, alan_row] = []"
    by (simp add: contributions_def row_contributions_def ada_row_def alan_row_def)
  have b: "contributions ''Charles Babbage'' [ada_row, alan_row] = [(2, ''Ada Lovelace''), (1, ''Alan Turing'')]"
    by (simp add: contributions_def row_contributions_def ada_row_def alan_row_def)
  from self_name_exclusion[of "[ada_row, alan_row]" "''Ada Lovelace''"]
    self_name_exclusion[of "[ada_row, alan_row]" "''Charles Babbage''"] a b
  show ?thesis by (simp add: insert_commute)
qed

text \<open>
  Claim C6 as stated fails for an empty name: it differs from the row's \<open>ss_name\<close>, yet the
  entry is not added and the index stays empty.
\<close>

theorem blank_name_not_added:
  "coauthors_list blank_name_row = [([], 1)] \<and> ss_name blank_name_row = JStr ''Grace Hopper''
   \<and> build_coauthor_index [blank_name_row] = []"
  by (simp add: build_coauthor_index_def add_row_def add_coauthor_def blank_name_row_def)

section \<open>Properties of the pinned ordering\<close>

text \<open>
  \<open>py_sort\<close> permutes; descending, the keys come in the reverse order of ascending, and
  the rows do too when no two keys are equal; rows with equal keys keep their order.
\<close>

lemma mset_py_sort: "mset (py_sort k d xs) = mset xs"
  by (simp add: py_sort_def)

lemma set_py_sort: "set (py_sort k d xs) = set xs"
  using mset_py_sort[of k d xs] by (metis set_mset_mset)

lemma map_sort_key: "map k (sort_key k xs) = sort (map k xs)"
proof (induction xs)
  case Nil
  then show ?case by simp
next
  case (Cons x xs)
  have "map k (insort_key k x ys) = insort (k x) (map k ys)" for ys
    by (induction ys) simp_all
  with Cons show ?case by simp
qed

lemma keys_py_sort_desc: "map k (py_sort k True xs) = rev (map k (py_sort k False xs))"
proof -
  have "sort (map k (rev xs)) = sort (map k xs)"
    by (rule properties_for_sort) simp_all
  then have "map k (sort_key k (rev xs)) = map k (sort_key k xs)"
    by (simp add: map_sort_key)
  then show ?thesis
    by (simp add: py_sort_def flip: rev_map)
qed

lemma py_sort_desc_distinct:
  assumes "distinct (map k xs)"
  shows "py_sort k True xs = rev (py_sort k False xs)"
proof -
  have inj: "inj_on k (set (rev xs))"
    using assms by (simp add: distinct_map)
  have "sort_key k (rev xs) = sort_key k xs"
    by (rule sort_key_inj_key_eq[OF _ inj]) simp_all
  then show ?thesis by (simp add: py_sort_def)
qed

lemma py_sort_stable: "filter (\<lambda>y. k y = v) (py_sort k d xs) = filter (\<lambda>y. k y = v) xs"
proof (cases d)
  case False
  then show ?thesis by (simp add: py_sort_def sort_key_stable)
next
  case True
  have "filter (\<lambda>y. k y = v) (rev (sort_key k (rev xs))) = rev (filter (\<lambda>y. k y = v) (sort_key k (rev xs)))"
    by (simp add: rev_filter)
  also have "\<dots> = rev (filter (\<lambda>y. k y = v) (rev xs))"
    by (simp only: sort_key_stable)
  also have "\<dots> = filter (\<lambda>y. k y = v) xs"
    by (simp add: rev_filter)
  finally show ?thesis using True by (simp add: py_sort_def)
qed

lemma sorted_py_sort_asc: "sorted (map k (py_sort k False xs))"
  by (simp add: py_sort_def)

text \<open>The output is a permutation of the flagged rows followed by one of the others.\<close>

lemma ordered_rows_split:
  assumes "ordered_rows fl lw col desc rows = Inr out"
  shows "\<exists>fl ot. out = fl @ ot \<and> mset fl = mset (filter flagged rows)
           \<and> mset ot = mset (filter (\<lambda>r. \<not> flagged r) rows)"
proof (cases "col_set col")
  case True
  with assms have "out = py_sort (the_key fl lw col) desc (filter flagged rows)
      @ py_sort (the_key fl lw col) desc (filter (\<lambda>r. \<not> flagged r) rows)"
    by (simp add: ordered_rows_def Let_def split: if_splits)
  then show ?thesis using mset_py_sort by blast
next
  case False
  with assms have "out = py_sort (\<lambda>r. Txt (lw (zotero_name r))) False (filter flagged rows)
      @ py_sort (\<lambda>r. Txt (lw (zotero_name r))) False (filter (\<lambda>r. \<not> flagged r) rows)"
    by (simp add: ordered_rows_def Let_def)
  then show ?thesis using mset_py_sort by blast
qed

lemma split_pinned:
  assumes "\<forall>r\<in>set fl. flagged r" and "\<forall>r\<in>set ot. \<not> flagged r"
    and "i < length (fl @ ot)" "j < length (fl @ ot)"
    and "flagged ((fl @ ot) ! i)" "\<not> flagged ((fl @ ot) ! j)"
  shows "i < length fl \<and> length fl \<le> j"
proof -
  have "i < length fl"
  proof (rule ccontr)
    assume "\<not> i < length fl"
    then have "(fl @ ot) ! i = ot ! (i - length fl)" "i - length fl < length ot"
      using assms(3) by (simp_all add: nth_append)
    then show False using assms(2,5) by (metis nth_mem)
  qed
  moreover have "length fl \<le> j"
  proof (rule ccontr)
    assume "\<not> length fl \<le> j"
    then have "(fl @ ot) ! j = fl ! j" "j < length fl"
      by (simp_all add: nth_append)
    then show False using assms(1,6) by (metis nth_mem)
  qed
  ultimately show ?thesis by simp
qed

lemma split_prefix:
  assumes "\<forall>r\<in>set fl. flagged r" and "\<forall>r\<in>set ot. \<not> flagged r" and "i < length (fl @ ot)"
  shows "flagged ((fl @ ot) ! i) \<longleftrightarrow> i < length fl"
proof (cases "i < length fl")
  case True
  then have "(fl @ ot) ! i \<in> set fl" by (simp add: nth_append)
  with assms(1) True show ?thesis by blast
next
  case False
  then have "(fl @ ot) ! i \<in> set ot" using assms(3) by (simp add: nth_append)
  with assms(2) False show ?thesis by blast
qed

lemma ne_set_nonempty: "x \<in> set xs \<Longrightarrow> xs \<noteq> []"
  by (cases xs) simp_all

text \<open>
  With text in the \<open>ss_name\<close> and \<open>ss_id\<close> cells, no key of a column of the tree raises.
\<close>

lemma tree_cols_cells: "\<forall>c\<in>set tree_cols. c \<noteq> [] \<and> c \<noteq> ''coauthors_list'' \<and> c \<noteq> ''flagged''"
  by (simp add: tree_cols_def)

lemma text_cell_key: "text_cell v \<Longrightarrow> \<exists>s. txt_key lw v = Inr s"
  by (cases v) simp_all

lemma sort_key_of_text:
  assumes "text_cell (ss_name r)" and "text_cell (ss_id r)"
    and "c \<noteq> ''coauthors_list''" and "c \<noteq> ''flagged''"
  shows "\<not> isl (sort_key_of fl lw (Some c) r)"
proof (cases "c = ''hindex'' \<or> c = ''papers''")
  case True
  then show ?thesis by (auto simp: sort_key_of_def)
next
  case False
  have "text_cell (row_get r c)"
    using assms False by (simp add: row_get_def)
  then have "text_cell (sort_val (Some c) r)"
    by (simp add: sort_val_def row_get_def)
  from text_cell_key[OF this, of lw] obtain s where "txt_key lw (sort_val (Some c) r) = Inr s" ..
  then show ?thesis
    using False by (simp add: sort_key_of_def)
qed

lemma ordered_rows_total:
  assumes cells: "\<forall>r\<in>set rows. text_cell (ss_name r) \<and> text_cell (ss_id r)"
    and col: "col = None \<or> the col \<in> set tree_cols"
  shows "\<exists>out. ordered_rows fl lw col desc rows = Inr out"
proof (cases "col_set col")
  case False
  then show ?thesis by (simp add: ordered_rows_def Let_def)
next
  case True
  then obtain c where c: "col = Some c" "c \<in> set tree_cols"
    using col by (auto simp: col_set_def split: option.splits)
  from tree_cols_cells[THEN bspec, OF c(2)]
  have ne: "c \<noteq> ''coauthors_list''" "c \<noteq> ''flagged''"
    by (rule conjunct2[THEN conjunct1], rule conjunct2[THEN conjunct2])
  have "\<not> isl (sort_key_of fl lw col r)" if "r \<in> set rows" for r
  proof -
    from cells that have "text_cell (ss_name r)" "text_cell (ss_id r)"
      by blast+
    then show ?thesis unfolding c(1) using ne by (rule sort_key_of_text)
  qed
  then have "\<not> list_ex (\<lambda>r. isl (sort_key_of fl lw col r)) rows"
    by (simp add: list_ex_iff)
  then show ?thesis using True by (simp add: ordered_rows_def Let_def)
qed

text \<open>The example rows sorted by h-index.\<close>

lemma keys_hindex:
  "the_key float_small lw (Some ''hindex'') ada_row = Num (Fin 3)"
  "the_key float_small lw (Some ''hindex'') alan_row = Num (Fin 5)"
  "the_key fl lw (Some ''hindex'') blank_name_row = Num NegInf"
  "the_key fl lw (Some ''hindex'') (fresh_row n) = Num NegInf"
  by (simp_all add: the_key_def sort_key_of_def sort_val_def col_set_def row_get_def num_key_def
      float_small_def ada_row_def alan_row_def blank_name_row_def fresh_row_def)

lemma flags:
  "flagged ada_row" "\<not> flagged alan_row" "\<not> flagged blank_name_row" "\<not> flagged (fresh_row n)"
  by (simp_all add: ada_row_def alan_row_def blank_name_row_def fresh_row_def)

lemma no_raise_hindex: "\<not> isl (sort_key_of fl lw (Some ''hindex'') r)"
  by (simp add: sort_key_of_def)

lemma ordered_hindex:
  "ordered_rows float_small lower (Some ''hindex'') True [alan_row, blank_name_row, ada_row] =
     Inr [ada_row, alan_row, blank_name_row]"
  "ordered_rows float_small lower (Some ''hindex'') False [alan_row, blank_name_row, ada_row] =
     Inr [ada_row, blank_name_row, alan_row]"
  by (simp_all add: ordered_rows_def col_set_def no_raise_hindex flags py_sort_def keys_hindex)

lemma ordered_tied:
  "ordered_rows float_small lower (Some ''hindex'') False
       [alan_row, blank_name_row, fresh_row ''Emmy Noether'', ada_row] =
     Inr [ada_row, blank_name_row, fresh_row ''Emmy Noether'', alan_row]"
  "ordered_rows float_small lower (Some ''hindex'') True
       [alan_row, blank_name_row, fresh_row ''Emmy Noether'', ada_row] =
     Inr [ada_row, alan_row, blank_name_row, fresh_row ''Emmy Noether'']"
  by (simp_all add: ordered_rows_def col_set_def no_raise_hindex flags py_sort_def keys_hindex)

lemma ordered_fresh:
  "ordered_rows float_small lower (Some ''hindex'') d [fresh_row ''Emmy Noether'', fresh_row ''David Hilbert''] =
     Inr [fresh_row ''Emmy Noether'', fresh_row ''David Hilbert'']"
  by (simp add: ordered_rows_def col_set_def no_raise_hindex flags py_sort_def keys_hindex)

text \<open>
  Claim C7 (pinning invariant). For rows with at least one flagged and one unflagged row,
  every column and both directions: whatever \<open>refresh_tree\<close> displays is a permutation of
  the rows in which every flagged row stands at a smaller index than every unflagged
  one, the flagged rows being a non-empty proper prefix; and it does display (no key
  raises) for every column of the tree when the \<open>ss_name\<close> and \<open>ss_id\<close> cells hold text.
\<close>

theorem pinning_invariant:
  assumes "\<exists>r\<in>set rows. flagged r" and "\<exists>r\<in>set rows. \<not> flagged r"
  shows "(\<forall>out. ordered_rows fl lw col desc rows = Inr out \<longrightarrow>
            mset out = mset rows
            \<and> (\<forall>i<length out. \<forall>j<length out. flagged (out ! i) \<and> \<not> flagged (out ! j) \<longrightarrow> i < j)
            \<and> (\<exists>k. 0 < k \<and> k < length out \<and> (\<forall>i<length out. flagged (out ! i) \<longleftrightarrow> i < k)))
     \<and> ((\<forall>r\<in>set rows. text_cell (ss_name r) \<and> text_cell (ss_id r))
          \<and> (col = None \<or> the col \<in> set tree_cols) \<longrightarrow>
        (\<exists>out. ordered_rows fl lw col desc rows = Inr out))"
proof -
  have A: "mset out = mset rows
            \<and> (\<forall>i<length out. \<forall>j<length out. flagged (out ! i) \<and> \<not> flagged (out ! j) \<longrightarrow> i < j)
            \<and> (\<exists>k. 0 < k \<and> k < length out \<and> (\<forall>i<length out. flagged (out ! i) \<longleftrightarrow> i < k))"
    if o: "ordered_rows fl lw col desc rows = Inr out" for out
  proof -
    from ordered_rows_split[OF o] obtain fl ot where s: "out = fl @ ot"
      "mset fl = mset (filter flagged rows)" "mset ot = mset (filter (\<lambda>r. \<not> flagged r) rows)"
      by blast
    have sf: "set fl = {r \<in> set rows. flagged r}"
      using mset_eq_setD[OF s(2)] by simp
    have so: "set ot = {r \<in> set rows. \<not> flagged r}"
      using mset_eq_setD[OF s(3)] by simp
    have f: "\<forall>r\<in>set fl. flagged r" and u: "\<forall>r\<in>set ot. \<not> flagged r"
      using sf so by auto
    have 1: "mset out = mset rows"
      unfolding s(1) using s(2,3) by (simp add: union_commute)
    have 2: "\<forall>i<length out. \<forall>j<length out. flagged (out ! i) \<and> \<not> flagged (out ! j) \<longrightarrow> i < j"
    proof (intro allI impI)
      fix i j
      assume "i < length out" "j < length out" "flagged (out ! i) \<and> \<not> flagged (out ! j)"
      then have "i < length fl \<and> length fl \<le> j"
        unfolding s(1) using split_pinned[OF f u] by blast
      then show "i < j" by simp
    qed
    from assms(1) obtain r1 where "r1 \<in> set rows" "flagged r1" by (rule bexE)
    then have "r1 \<in> set fl" by (simp add: sf)
    then have "fl \<noteq> []" by (rule ne_set_nonempty)
    from assms(2) obtain r2 where "r2 \<in> set rows" "\<not> flagged r2" by (rule bexE)
    then have "r2 \<in> set ot" by (simp add: so)
    then have "ot \<noteq> []" by (rule ne_set_nonempty)
    note ne = \<open>fl \<noteq> []\<close> \<open>ot \<noteq> []\<close>
    from ne have k: "0 < length fl" "length fl < length out"
      unfolding s(1) by simp_all
    have "\<forall>i<length out. flagged (out ! i) \<longleftrightarrow> i < length fl"
      unfolding s(1) using split_prefix[OF f u] by blast
    with k have 3: "\<exists>k. 0 < k \<and> k < length out \<and> (\<forall>i<length out. flagged (out ! i) \<longleftrightarrow> i < k)"
      by (intro exI[of _ "length fl"] conjI)
    from 1 2 3 show ?thesis by (intro conjI)
  qed
  have B: "\<exists>out. ordered_rows fl lw col desc rows = Inr out"
    if "(\<forall>r\<in>set rows. text_cell (ss_name r) \<and> text_cell (ss_id r))
          \<and> (col = None \<or> the col \<in> set tree_cols)"
    using that ordered_rows_total by blast
  show ?thesis
  proof (rule conjI)
    show "\<forall>out. ordered_rows fl lw col desc rows = Inr out \<longrightarrow>
            mset out = mset rows
            \<and> (\<forall>i<length out. \<forall>j<length out. flagged (out ! i) \<and> \<not> flagged (out ! j) \<longrightarrow> i < j)
            \<and> (\<exists>k. 0 < k \<and> k < length out \<and> (\<forall>i<length out. flagged (out ! i) \<longleftrightarrow> i < k))"
    proof (rule allI, rule impI)
      fix out assume o: "ordered_rows fl lw col desc rows = Inr out"
      from A[OF o] show "mset out = mset rows
            \<and> (\<forall>i<length out. \<forall>j<length out. flagged (out ! i) \<and> \<not> flagged (out ! j) \<longrightarrow> i < j)
            \<and> (\<exists>k. 0 < k \<and> k < length out \<and> (\<forall>i<length out. flagged (out ! i) \<longleftrightarrow> i < k))" .
    qed
  next
    show "(\<forall>r\<in>set rows. text_cell (ss_name r) \<and> text_cell (ss_id r))
          \<and> (col = None \<or> the col \<in> set tree_cols) \<longrightarrow>
        (\<exists>out. ordered_rows fl lw col desc rows = Inr out)"
      using B by (rule impI)
  qed
qed

text \<open>Flagged Ada comes first although her h-index is the smaller one.\<close>

theorem pinning_invariant_witness:
  "flagged ada_row \<and> \<not> flagged alan_row
   \<and> ordered_rows float_small lower (Some ''hindex'') True [alan_row, blank_name_row, ada_row] =
       Inr [ada_row, alan_row, blank_name_row]
   \<and> flagged ([ada_row, alan_row, blank_name_row] ! 0)
   \<and> \<not> flagged ([ada_row, alan_row, blank_name_row] ! 1)
   \<and> \<not> flagged ([ada_row, alan_row, blank_name_row] ! 2)"
proof -
  have h1: "\<exists>r\<in>set [alan_row, blank_name_row, ada_row]. flagged r"
    using flags(1) by simp
  have h2: "\<exists>r\<in>set [alan_row, blank_name_row, ada_row]. \<not> flagged r"
    using flags(2) by simp
  from pinning_invariant[OF h1 h2, of float_small lower "Some ''hindex''" True]
  show ?thesis
    by (simp add: ordered_hindex flags)
qed

text \<open>The partitions of the output are the sorted partitions of the input.\<close>

lemma filter_split:
  assumes "\<forall>r\<in>set A. P r" and "\<forall>r\<in>set B. \<not> P r"
  shows "filter P (A @ B) = A" and "filter (\<lambda>r. \<not> P r) (A @ B) = B"
proof -
  have 1: "filter P A = A" using assms(1) by (simp add: filter_id_conv)
  have 2: "filter P B = []" using assms(2) by (simp add: filter_empty_conv)
  have 3: "filter (\<lambda>r. \<not> P r) A = []" using assms(1) by (simp add: filter_empty_conv)
  have 4: "filter (\<lambda>r. \<not> P r) B = B" using assms(2) by (simp add: filter_id_conv)
  show "filter P (A @ B) = A" by (simp add: 1 2)
  show "filter (\<lambda>r. \<not> P r) (A @ B) = B" by (simp add: 3 4)
qed

lemma distinct_keys_py_sort:
  "distinct (map k (py_sort k d xs)) \<longleftrightarrow> distinct (map k xs)"
proof -
  have "mset (map k (py_sort k d xs)) = mset (map k xs)"
    by (simp add: mset_py_sort)
  then show ?thesis by (rule mset_eq_imp_distinct_iff)
qed

lemma ordered_rows_col:
  assumes "col_set col" and "ordered_rows fl lw col d rows = Inr out"
  shows "out = py_sort (the_key fl lw col) d (filter flagged rows)
      @ py_sort (the_key fl lw col) d (filter (\<lambda>r. \<not> flagged r) rows)"
    and "\<not> list_ex (\<lambda>r. isl (sort_key_of fl lw col r)) rows"
  using assms by (simp_all add: ordered_rows_def Let_def split: if_splits)

text \<open>
  Claim C8 (direction toggle), as the code has it. For a set column and rows none of whose
  keys is not-a-number, when the ascending order is displayed so is the descending one;
  both are flagged rows then unflagged rows, with the same rows in each partition; within
  each partition the keys ascend in the one and are exactly reversed in the other, rows
  with equal keys stand in the same relative order in both (the order of the input), and
  the rows themselves are exactly reversed when no two rows of the partition have equal
  keys.
\<close>

theorem direction_toggle:
  assumes "col_set col" and "ordered_rows fl lw col False rows = Inr asc"
    and "\<forall>r\<in>set rows. the_key fl lw col r \<noteq> Num NaN"
  shows "\<exists>desc. ordered_rows fl lw col True rows = Inr desc
     \<and> asc = filter flagged asc @ filter (\<lambda>r. \<not> flagged r) asc
     \<and> desc = filter flagged desc @ filter (\<lambda>r. \<not> flagged r) desc
     \<and> mset (filter flagged desc) = mset (filter flagged asc)
     \<and> mset (filter (\<lambda>r. \<not> flagged r) desc) = mset (filter (\<lambda>r. \<not> flagged r) asc)
     \<and> sorted (map (the_key fl lw col) (filter flagged asc))
     \<and> sorted (map (the_key fl lw col) (filter (\<lambda>r. \<not> flagged r) asc))
     \<and> map (the_key fl lw col) (filter flagged desc) = rev (map (the_key fl lw col) (filter flagged asc))
     \<and> map (the_key fl lw col) (filter (\<lambda>r. \<not> flagged r) desc) =
          rev (map (the_key fl lw col) (filter (\<lambda>r. \<not> flagged r) asc))
     \<and> (\<forall>k. filter (\<lambda>r. the_key fl lw col r = k) (filter flagged desc) =
              filter (\<lambda>r. the_key fl lw col r = k) (filter flagged asc))
     \<and> (\<forall>k. filter (\<lambda>r. the_key fl lw col r = k) (filter (\<lambda>r. \<not> flagged r) desc) =
              filter (\<lambda>r. the_key fl lw col r = k) (filter (\<lambda>r. \<not> flagged r) asc))
     \<and> (\<forall>k. filter (\<lambda>r. the_key fl lw col r = k) (filter flagged asc) =
              filter (\<lambda>r. the_key fl lw col r = k) (filter flagged rows))
     \<and> (\<forall>k. filter (\<lambda>r. the_key fl lw col r = k) (filter (\<lambda>r. \<not> flagged r) asc) =
              filter (\<lambda>r. the_key fl lw col r = k) (filter (\<lambda>r. \<not> flagged r) rows))
     \<and> (distinct (map (the_key fl lw col) (filter flagged asc)) \<longrightarrow>
          filter flagged desc = rev (filter flagged asc))
     \<and> (distinct (map (the_key fl lw col) (filter (\<lambda>r. \<not> flagged r) asc)) \<longrightarrow>
          filter (\<lambda>r. \<not> flagged r) desc = rev (filter (\<lambda>r. \<not> flagged r) asc))"
proof -
  let ?k = "the_key fl lw col"
  let ?F = "filter flagged rows" and ?O = "filter (\<lambda>r. \<not> flagged r) rows"
  let ?fa = "py_sort ?k False ?F" and ?oa = "py_sort ?k False ?O"
  let ?fd = "py_sort ?k True ?F" and ?od = "py_sort ?k True ?O"
  from ordered_rows_col[OF assms(1,2)] have asc: "asc = ?fa @ ?oa"
    and ok: "\<not> list_ex (\<lambda>r. isl (sort_key_of fl lw col r)) rows" .
  have d: "ordered_rows fl lw col True rows = Inr (?fd @ ?od)"
    using assms(1) ok by (simp add: ordered_rows_def Let_def)
  have fl: "\<forall>r\<in>set (py_sort ?k b ?F). flagged r" and un: "\<forall>r\<in>set (py_sort ?k b ?O). \<not> flagged r" for b
    by (simp_all add: set_py_sort)
  have fa: "filter flagged asc = ?fa" and oa: "filter (\<lambda>r. \<not> flagged r) asc = ?oa"
    unfolding asc using filter_split[OF fl un] by blast+
  have fd: "filter flagged (?fd @ ?od) = ?fd" and od: "filter (\<lambda>r. \<not> flagged r) (?fd @ ?od) = ?od"
    using filter_split[OF fl un] by blast+
  have 1: "asc = filter flagged asc @ filter (\<lambda>r. \<not> flagged r) asc"
    unfolding fa oa by (rule asc)
  have 2: "?fd @ ?od = filter flagged (?fd @ ?od) @ filter (\<lambda>r. \<not> flagged r) (?fd @ ?od)"
    unfolding fd od ..
  have 3: "mset (filter flagged (?fd @ ?od)) = mset (filter flagged asc)"
    unfolding fd fa by (simp add: mset_py_sort)
  have 4: "mset (filter (\<lambda>r. \<not> flagged r) (?fd @ ?od)) = mset (filter (\<lambda>r. \<not> flagged r) asc)"
    unfolding od oa by (simp add: mset_py_sort)
  have s1: "sorted (map ?k (filter flagged asc))"
    unfolding fa by (rule sorted_py_sort_asc)
  have s2: "sorted (map ?k (filter (\<lambda>r. \<not> flagged r) asc))"
    unfolding oa by (rule sorted_py_sort_asc)
  have 5: "map ?k (filter flagged (?fd @ ?od)) = rev (map ?k (filter flagged asc))"
    unfolding fd fa by (rule keys_py_sort_desc)
  have 6: "map ?k (filter (\<lambda>r. \<not> flagged r) (?fd @ ?od)) = rev (map ?k (filter (\<lambda>r. \<not> flagged r) asc))"
    unfolding od oa by (rule keys_py_sort_desc)
  have t1: "\<forall>k. filter (\<lambda>r. ?k r = k) (filter flagged (?fd @ ?od)) = filter (\<lambda>r. ?k r = k) (filter flagged asc)"
    unfolding fd fa by (simp only: py_sort_stable simp_thms)
  have t2: "\<forall>k. filter (\<lambda>r. ?k r = k) (filter (\<lambda>r. \<not> flagged r) (?fd @ ?od)) =
      filter (\<lambda>r. ?k r = k) (filter (\<lambda>r. \<not> flagged r) asc)"
    unfolding od oa by (simp only: py_sort_stable simp_thms)
  have t3: "\<forall>k. filter (\<lambda>r. ?k r = k) (filter flagged asc) = filter (\<lambda>r. ?k r = k) ?F"
    unfolding fa by (simp only: py_sort_stable simp_thms)
  have t4: "\<forall>k. filter (\<lambda>r. ?k r = k) (filter (\<lambda>r. \<not> flagged r) asc) = filter (\<lambda>r. ?k r = k) ?O"
    unfolding oa by (simp only: py_sort_stable simp_thms)
  have 7: "distinct (map ?k (filter flagged asc)) \<longrightarrow> filter flagged (?fd @ ?od) = rev (filter flagged asc)"
    unfolding fd fa distinct_keys_py_sort using py_sort_desc_distinct by blast
  have 8: "distinct (map ?k (filter (\<lambda>r. \<not> flagged r) asc)) \<longrightarrow>
      filter (\<lambda>r. \<not> flagged r) (?fd @ ?od) = rev (filter (\<lambda>r. \<not> flagged r) asc)"
    unfolding od oa distinct_keys_py_sort using py_sort_desc_distinct by blast
  show ?thesis
    by (rule exI[of _ "?fd @ ?od"]) (intro conjI d 1 2 3 4 s1 s2 5 6 t1 t2 t3 t4 7 8)
qed

text \<open>
  By h-index the unflagged rows turn around, except the two without h-index, which keep
  their order; the flagged row stays first.
\<close>

theorem direction_toggle_witness:
  "col_set (Some ''hindex'')
   \<and> the_key float_small lower (Some ''hindex'') alan_row = Num (Fin 5)
   \<and> the_key float_small lower (Some ''hindex'') blank_name_row = Num NegInf
   \<and> the_key float_small lower (Some ''hindex'') (fresh_row ''Emmy Noether'') = Num NegInf
   \<and> the_key float_small lower (Some ''hindex'') ada_row = Num (Fin 3)
   \<and> ordered_rows float_small lower (Some ''hindex'') False
         [alan_row, blank_name_row, fresh_row ''Emmy Noether'', ada_row] =
       Inr [ada_row, blank_name_row, fresh_row ''Emmy Noether'', alan_row]
   \<and> ordered_rows float_small lower (Some ''hindex'') True
         [alan_row, blank_name_row, fresh_row ''Emmy Noether'', ada_row] =
       Inr [ada_row, alan_row, blank_name_row, fresh_row ''Emmy Noether'']
   \<and> distinct (map (the_key float_small lower (Some ''hindex'')) [ada_row])
   \<and> filter flagged [ada_row, alan_row, blank_name_row, fresh_row ''Emmy Noether''] =
       rev (filter flagged [ada_row, blank_name_row, fresh_row ''Emmy Noether'', alan_row])"
proof -
  have h1: "col_set (Some ''hindex'')" by (simp add: col_set_def)
  have h3: "\<forall>r\<in>set [alan_row, blank_name_row, fresh_row ''Emmy Noether'', ada_row].
      the_key float_small lower (Some ''hindex'') r \<noteq> Num NaN"
    by (simp add: keys_hindex)
  from direction_toggle[OF h1 ordered_tied(1) h3] h1
  show ?thesis
    by (simp add: ordered_tied flags keys_hindex)
qed

text \<open>
  Claim C8 as stated fails on equal keys: two freshly imported rows, both without
  h-index, are displayed in the same order ascending and descending.
\<close>

theorem tied_rows_not_reversed:
  "ordered_rows float_small lower (Some ''hindex'') False [fresh_row ''Emmy Noether'', fresh_row ''David Hilbert''] =
     Inr [fresh_row ''Emmy Noether'', fresh_row ''David Hilbert'']
   \<and> ordered_rows float_small lower (Some ''hindex'') True [fresh_row ''Emmy Noether'', fresh_row ''David Hilbert''] =
     Inr [fresh_row ''Emmy Noether'', fresh_row ''David Hilbert'']
   \<and> [fresh_row ''Emmy Noether'', fresh_row ''David Hilbert''] \<noteq>
       rev [fresh_row ''Emmy Noether'', fresh_row ''David Hilbert'']"
  by (simp add: ordered_fresh) (simp add: fresh_row_def)

end
